theory Spec2Isabelle
  imports Main "HOL-Library.Sublist" "HOL-Library.Multiset"
begin

section \<open>Data model: tensor types, values and operations\<close>

text \<open>
  The rewrite patterns of \<^verbatim>\<open>mlir/lib/Dialect/Tensor/Transforms/ReshapePatterns.cpp\<close>
  work on four kinds of tensor operations. The types of tensors, values and operations
  are declared in the headers of the tensor dialect, outside this file, and each is
  modelled here from the spec's data model.
\<close>

text \<open>
  Modelled from the spec: a dimension size is a known integer or dynamic. In the shape
  arrays a dimension size is an \<open>int64_t\<close>, and the sentinel \<open>ShapedType::kDynamic\<close>
  (the least 64-bit integer) marks a dynamic size.
\<close>

definition kDynamic :: int where
  "kDynamic = - (2 ^ 63)"

text \<open>
  Modelled from the spec: a tensor type is an ordered sequence of dimension sizes with an
  element type; two tensor types are equal iff rank, element type and every dimension
  agree.
\<close>

datatype ElementType = F16 | F32 | F64 | I1 | I8 | I32 | I64 | Index

datatype RankedTensorType =
  RankedTensorType (getShape: "int list") (getElementType: ElementType)

text \<open>
  Modelled from the spec: operations live in an arena and an operand refers to the
  result of a prior operation. An SSA value is named by the arena slot of the operation
  that defines it; a block argument or the result of an operation of another dialect is
  an \<open>OtherOp\<close> slot. An \<open>OpFoldResult\<close>, the entry of an offset, size or stride, is
  either a static integer or a dynamic value reference.
\<close>

type_synonym Value = nat

datatype OpFoldResult = Attr int | Val Value

datatype InsertKind = InsertSliceKind | ParallelInsertSliceKind

text \<open>
  Modelled from the spec: the four operation kinds with their operands and attributes,
  the parallel insert being an insert of another kind. Offsets, sizes, strides and the
  output shape of an expansion are kept in their mixed form (what \<open>getMixedOffsets\<close>,
  \<open>getMixedSizes\<close>, \<open>getMixedStrides\<close> return); the static arrays are read off them by
  \<open>staticOf\<close>. An ordinary insert has a result, a parallel insert has none. A \<open>DimOp\<close>
  yields an index, as does any \<open>OtherOp\<close> without a tensor type.
\<close>

datatype Operation =
    ExtractSliceOp Value "OpFoldResult list" "OpFoldResult list" "OpFoldResult list"
      RankedTensorType
  | InsertSliceOp InsertKind Value Value "OpFoldResult list" "OpFoldResult list"
      "OpFoldResult list" "RankedTensorType option"
  | ExpandShapeOp Value "nat list list" "OpFoldResult list" RankedTensorType
  | CollapseShapeOp Value "nat list list" RankedTensorType
  | DimOp Value nat
  | OtherOp "Value list" "RankedTensorType option"

type_synonym Graph = "Operation option list"

text \<open>
  Modelled from the spec: a match attempt ends in success or in a match failure, which
  may carry an advisory reason (\<open>notifyMatchFailure\<close>) or none (\<open>failure()\<close>).
\<close>

datatype LogicalResult = success | failure "string option"

text \<open>
  Modelled from the spec: the outcomes of the rank-reduction compatibility test on two
  tensor types.
\<close>

datatype SliceVerificationResult = Success | RankTooLarge | SizeMismatch | ElemTypeMismatch

text \<open>
  Modelled from the spec: the static part of a mixed entry (\<open>getStaticOffsets\<close>,
  \<open>getStaticSizes\<close>, \<open>getStaticStrides\<close>, \<open>getStaticOutputShape\<close>), where a dynamic entry
  reads as \<open>kDynamic\<close>, and the dynamic operands of a mixed list.
\<close>

fun staticOf :: "OpFoldResult \<Rightarrow> int" where
  "staticOf (Attr i) = i"
| "staticOf (Val v) = kDynamic"

fun dynamicOf :: "OpFoldResult list \<Rightarrow> Value list" where
  "dynamicOf [] = []"
| "dynamicOf (Attr i # xs) = dynamicOf xs"
| "dynamicOf (Val v # xs) = v # dynamicOf xs"

subsection \<open>Reading the arena\<close>

text \<open>
  Modelled from the spec: the accessors of the operation graph (the producer of an
  operand, the type of a value, the uses of a result) belong to the core of the
  infrastructure, outside this file. A value without a live defining slot has no
  producer.
\<close>

definition getDefiningOp :: "Graph \<Rightarrow> Value \<Rightarrow> Operation option" where
  "getDefiningOp g v = (if v < length g then g ! v else None)"

fun resultTypeOf :: "Operation \<Rightarrow> RankedTensorType option" where
  "resultTypeOf (ExtractSliceOp x offs szs strs t) = Some t"
| "resultTypeOf (InsertSliceOp k s d offs szs strs t) = t"
| "resultTypeOf (ExpandShapeOp s re out t) = Some t"
| "resultTypeOf (CollapseShapeOp s re t) = Some t"
| "resultTypeOf (DimOp s i) = None"
| "resultTypeOf (OtherOp ops t) = t"

text \<open>
  Modelled from the spec: the ranked tensor type of a value is the result type of the
  operation that defines it.
\<close>

definition getType :: "Graph \<Rightarrow> Value \<Rightarrow> RankedTensorType option" where
  "getType g v = (case getDefiningOp g v of None \<Rightarrow> None | Some op \<Rightarrow> resultTypeOf op)"

text \<open>
  Modelled from the spec: every operand slot that holds a value is one use of it, and
  \<open>hasOneUse\<close> asks for exactly one use over the whole program.
\<close>

fun operandsOf :: "Operation \<Rightarrow> Value list" where
  "operandsOf (ExtractSliceOp x offs szs strs t) =
     x # dynamicOf offs @ dynamicOf szs @ dynamicOf strs"
| "operandsOf (InsertSliceOp k s d offs szs strs t) =
     s # d # dynamicOf offs @ dynamicOf szs @ dynamicOf strs"
| "operandsOf (ExpandShapeOp s re out t) = s # dynamicOf out"
| "operandsOf (CollapseShapeOp s re t) = [s]"
| "operandsOf (DimOp s i) = [s]"
| "operandsOf (OtherOp ops t) = ops"

fun usesIn :: "Value \<Rightarrow> Operation option \<Rightarrow> nat" where
  "usesIn v None = 0"
| "usesIn v (Some op) = count_list (operandsOf op) v"

definition numUses :: "Graph \<Rightarrow> Value \<Rightarrow> nat" where
  "numUses g v = sum_list (map (usesIn v) g)"

definition hasOneUse :: "Graph \<Rightarrow> Value \<Rightarrow> bool" where
  "hasOneUse g v = (numUses g v = 1)"

subsection \<open>Library helpers\<close>

text \<open>
  Modelled from the spec: \<open>ExtractSliceOp::inferResultType\<close> is declared in the tensor
  dialect, outside this file. It yields the non-reducing slice type: the static sizes
  as the shape, with the element type of the source.
\<close>

definition inferResultType ::
  "RankedTensorType \<Rightarrow> int list \<Rightarrow> int list \<Rightarrow> int list \<Rightarrow> RankedTensorType" where
  "inferResultType srcType staticOffsets staticSizes staticStrides =
     RankedTensorType staticSizes (getElementType srcType)"

text \<open>
  Modelled from the spec: \<open>computeRankReductionMask\<close> and \<open>isRankReducedType\<close> are the
  rank-reduction compatibility test of the library, outside this file. The reduced
  shape must be the original shape with some dimensions of static size 1 removed; the
  scan is greedy from the left and returns the dropped positions.
\<close>

fun computeRankReductionMask :: "nat \<Rightarrow> int list \<Rightarrow> int list \<Rightarrow> nat list option" where
  "computeRankReductionMask i [] [] = Some []"
| "computeRankReductionMask i [] (r # rs) = None"
| "computeRankReductionMask i (d # ds) [] =
     (if d = 1 then map_option (Cons i) (computeRankReductionMask (Suc i) ds []) else None)"
| "computeRankReductionMask i (d # ds) (r # rs) =
     (if d = r then computeRankReductionMask (Suc i) ds rs
      else if d = 1 then map_option (Cons i) (computeRankReductionMask (Suc i) ds (r # rs))
      else None)"

text \<open>
  Modelled from the spec: \<open>isRankReducedType\<close>, outside this file, succeeds on equal
  types, and otherwise when the candidate has no higher rank, the scan above finds
  a mask, and the element types agree.
\<close>

definition isRankReducedType ::
  "RankedTensorType \<Rightarrow> RankedTensorType \<Rightarrow> SliceVerificationResult" where
  "isRankReducedType originalType candidateReducedType =
     (if originalType = candidateReducedType then Success
      else if length (getShape candidateReducedType) > length (getShape originalType)
        then RankTooLarge
      else if computeRankReductionMask 0 (getShape originalType)
                (getShape candidateReducedType) = None
        then SizeMismatch
      else if getElementType originalType \<noteq> getElementType candidateReducedType
        then ElemTypeMismatch
      else Success)"

subsection \<open>The rewriter\<close>

text \<open>
  Modelled from the spec: the \<open>PatternRewriter\<close> belongs to the rewrite infrastructure,
  outside this file. The spec asks for an arena of operations with indexed results, a
  constructor, a primitive that replaces every use of a result, and an in-place edit of
  one operation. \<open>create\<close> appends a slot and returns its value; \<open>replaceOp\<close> redirects
  every use of the old result and erases the old operation.
\<close>

definition create :: "Graph \<Rightarrow> Operation \<Rightarrow> Graph \<times> Value" where
  "create g op = (g @ [Some op], length g)"

text \<open>
  Modelled from the spec: replacing a result redirects every operand slot that holds the
  old value to the new one, in every operation of the program, and removes the old
  operation.
\<close>

fun mapOperands :: "(Value \<Rightarrow> Value) \<Rightarrow> Operation \<Rightarrow> Operation" where
  "mapOperands f (ExtractSliceOp x offs szs strs t) =
     ExtractSliceOp (f x) (map (case_OpFoldResult Attr (Val \<circ> f)) offs)
       (map (case_OpFoldResult Attr (Val \<circ> f)) szs)
       (map (case_OpFoldResult Attr (Val \<circ> f)) strs) t"
| "mapOperands f (InsertSliceOp k s d offs szs strs t) =
     InsertSliceOp k (f s) (f d) (map (case_OpFoldResult Attr (Val \<circ> f)) offs)
       (map (case_OpFoldResult Attr (Val \<circ> f)) szs)
       (map (case_OpFoldResult Attr (Val \<circ> f)) strs) t"
| "mapOperands f (ExpandShapeOp s re out t) =
     ExpandShapeOp (f s) re (map (case_OpFoldResult Attr (Val \<circ> f)) out) t"
| "mapOperands f (CollapseShapeOp s re t) = CollapseShapeOp (f s) re t"
| "mapOperands f (DimOp s i) = DimOp (f s) i"
| "mapOperands f (OtherOp ops t) = OtherOp (map f ops) t"

definition replaceAllUsesWith :: "Graph \<Rightarrow> Value \<Rightarrow> Value \<Rightarrow> Graph" where
  "replaceAllUsesWith g old new =
     map (map_option (mapOperands (\<lambda>v. if v = old then new else v))) g"

definition eraseOp :: "Graph \<Rightarrow> nat \<Rightarrow> Graph" where
  "eraseOp g i = g[i := None]"

definition replaceOp :: "Graph \<Rightarrow> nat \<Rightarrow> Value \<Rightarrow> Graph" where
  "replaceOp g opId new = eraseOp (replaceAllUsesWith g opId new) opId"

definition replaceOpWithNewOp :: "Graph \<Rightarrow> nat \<Rightarrow> Operation \<Rightarrow> Graph" where
  "replaceOpWithNewOp g opId op = (case create g op of (g1, v) \<Rightarrow> replaceOp g1 opId v)"

text \<open>
  Modelled from the spec: the in-place edit applies a change to the one operation in the
  given slot and touches nothing else.
\<close>

definition modifyOpInPlace :: "Graph \<Rightarrow> nat \<Rightarrow> (Operation \<Rightarrow> Operation) \<Rightarrow> Graph" where
  "modifyOpInPlace g opId f = g[opId := map_option f (getDefiningOp g opId)]"

text \<open>
  Modelled from the spec: the builders of the slice operations live in the tensor
  dialect, outside this file. The builder of an extract that is given no result type
  infers the non-reducing type from the source type and the static sizes; the builder
  of an ordinary insert gives the result the type of the destination, and a parallel
  insert has no result.
\<close>

definition buildExtractSliceOp ::
  "Graph \<Rightarrow> Value \<Rightarrow> OpFoldResult list \<Rightarrow> OpFoldResult list \<Rightarrow> OpFoldResult list \<Rightarrow>
   Operation option" where
  "buildExtractSliceOp g x offs szs strs =
     map_option
       (\<lambda>srcType. ExtractSliceOp x offs szs strs
          (inferResultType srcType (map staticOf offs) (map staticOf szs) (map staticOf strs)))
       (getType g x)"

text \<open>
  Modelled from the spec: the builder of an insert, outside this file; the result of an
  ordinary insert has the type of the destination.
\<close>

definition buildInsertSliceOp ::
  "Graph \<Rightarrow> InsertKind \<Rightarrow> Value \<Rightarrow> Value \<Rightarrow> OpFoldResult list \<Rightarrow> OpFoldResult list \<Rightarrow>
   OpFoldResult list \<Rightarrow> Operation" where
  "buildInsertSliceOp g k source dest offs szs strs =
     InsertSliceOp k source dest offs szs strs
       (case k of InsertSliceKind \<Rightarrow> getType g dest | ParallelInsertSliceKind \<Rightarrow> None)"

section \<open>The folding patterns\<close>

text \<open>
  Every pattern takes the arena and the slot of the root operation and returns the
  \<open>LogicalResult\<close> with the arena it leaves behind. \<open>None\<close> stands for a failed cast of
  the library (an operand that has no ranked tensor type), which a verified program
  never triggers. The driver offers a pattern only roots of its own kind; a root of
  another kind is no match.
\<close>

subsection \<open>Fold expand-after-extract\<close>

definition FoldExpandOfRankReducingExtract ::
  "Graph \<Rightarrow> nat \<Rightarrow> (LogicalResult \<times> Graph) option" where
  "FoldExpandOfRankReducingExtract g opId =
     (case getDefiningOp g opId of
        Some (ExpandShapeOp src re out resultType) \<Rightarrow>
          (case getDefiningOp g src of
             Some (ExtractSliceOp x offs szs strs t) \<Rightarrow>
               (case getType g x of
                  None \<Rightarrow> None
                | Some srcType \<Rightarrow>
                    let nonReducingExtractType =
                          inferResultType srcType (map staticOf offs) (map staticOf szs)
                            (map staticOf strs)
                    in if nonReducingExtractType \<noteq> resultType then Some (failure None, g)
                       else map_option
                              (\<lambda>newOp. (success, replaceOpWithNewOp g opId newOp))
                              (buildExtractSliceOp g x offs szs strs))
           | _ \<Rightarrow> Some (failure None, g))
      | _ \<Rightarrow> Some (failure None, g))"

subsection \<open>Fold collapse-into-extract\<close>

definition FoldUnPaddingCollapseIntoExtract ::
  "Graph \<Rightarrow> nat \<Rightarrow> (LogicalResult \<times> Graph) option" where
  "FoldUnPaddingCollapseIntoExtract g opId =
     (case getDefiningOp g opId of
        Some (CollapseShapeOp src re resultType) \<Rightarrow>
          (case getDefiningOp g src of
             Some (ExtractSliceOp x offs szs strs t) \<Rightarrow>
               if \<not> hasOneUse g src then Some (failure None, g)
               else (case getType g src of
                       None \<Rightarrow> None
                     | Some srcType \<Rightarrow>
                         if isRankReducedType srcType resultType \<noteq> Success
                         then Some (failure (Some ''expected unpadding collapse''), g)
                         else (case create g (ExtractSliceOp x offs szs strs resultType) of
                                 (g1, unPaddedExtractSlice) \<Rightarrow>
                                   Some (success, replaceOp g1 opId unPaddedExtractSlice)))
           | _ \<Rightarrow> Some (failure None, g))
      | _ \<Rightarrow> Some (failure None, g))"

subsection \<open>Fold collapse-into-insert\<close>

definition FoldInsertOfRankReducingInsert ::
  "InsertKind \<Rightarrow> Graph \<Rightarrow> nat \<Rightarrow> (LogicalResult \<times> Graph) option" where
  "FoldInsertOfRankReducingInsert OpTy g opId =
     (case getDefiningOp g opId of
        Some (InsertSliceOp k source dest offs szs strs rt) \<Rightarrow>
          if k \<noteq> OpTy then Some (failure None, g)
          else
          (case getDefiningOp g source of
             Some (CollapseShapeOp x re t) \<Rightarrow>
               (case (getType g x, getType g dest) of
                  (Some srcType, Some destType) \<Rightarrow>
                    let nonReducingInsertType =
                          RankedTensorType (map staticOf szs) (getElementType destType)
                    in if nonReducingInsertType \<noteq> srcType then Some (failure None, g)
                       else Some (success,
                              replaceOpWithNewOp g opId
                                (buildInsertSliceOp g OpTy x dest offs szs strs))
                | _ \<Rightarrow> None)
           | _ \<Rightarrow> Some (failure None, g))
      | _ \<Rightarrow> Some (failure None, g))"

subsection \<open>Fold expand-into-insert\<close>

fun assignSource :: "Value \<Rightarrow> Operation \<Rightarrow> Operation" where
  "assignSource x (InsertSliceOp k source dest offs szs strs rt) =
     InsertSliceOp k x dest offs szs strs rt"
| "assignSource x op = op"

definition FoldPaddingExpandIntoInsert ::
  "InsertKind \<Rightarrow> Graph \<Rightarrow> nat \<Rightarrow> (LogicalResult \<times> Graph) option" where
  "FoldPaddingExpandIntoInsert OpTy g opId =
     (case getDefiningOp g opId of
        Some (InsertSliceOp k source dest offs szs strs rt) \<Rightarrow>
          if k \<noteq> OpTy then Some (failure None, g)
          else
          (case getDefiningOp g source of
             Some (ExpandShapeOp x re out resultType) \<Rightarrow>
               (case getType g x of
                  None \<Rightarrow> None
                | Some srcType \<Rightarrow>
                    if isRankReducedType resultType srcType \<noteq> Success
                    then Some (failure (Some ''expected rank increasing expansion''), g)
                    else Some (success, modifyOpInPlace g opId (assignSource x)))
           | _ \<Rightarrow> Some (failure None, g))
      | _ \<Rightarrow> Some (failure None, g))"

section \<open>Bubbling an expansion up through a parallel collapse\<close>

text \<open>
  The loop of the pattern keeps three counters and three growing vectors. Reading a
  \<open>SmallVector\<close> past its end is an assertion failure, \<open>None\<close> here.
\<close>

record ReshapeState =
  index :: nat
  expandIndex :: nat
  collapseIndex :: nat
  newExpandReInds :: "nat list list"
  newCollapseReInds :: "nat list list"
  newExpandSizes :: "OpFoldResult list"

definition initialState :: ReshapeState where
  "initialState = \<lparr>index = 0, expandIndex = 0, collapseIndex = 0, newExpandReInds = [],
     newCollapseReInds = [], newExpandSizes = []\<rparr>"

text \<open>The inner loop of the branch \<open>collapseReassociation.size() != 1\<close>.\<close>

fun collapseGroupLoop ::
  "OpFoldResult list \<Rightarrow> nat \<Rightarrow> nat list \<Rightarrow> ReshapeState \<Rightarrow> (nat list \<times> ReshapeState) option"
where
  "collapseGroupLoop collapseSizes 0 newCollapseReassociation s =
     Some (newCollapseReassociation, s)"
| "collapseGroupLoop collapseSizes (Suc n) newCollapseReassociation s =
     (if collapseIndex s < length collapseSizes
      then collapseGroupLoop collapseSizes n (newCollapseReassociation @ [index s])
             (s\<lparr>index := index s + 1,
                collapseIndex := collapseIndex s + 1,
                newExpandReInds := newExpandReInds s @ [[index s]],
                newExpandSizes := newExpandSizes s @ [collapseSizes ! collapseIndex s]\<rparr>)
      else None)"

text \<open>The inner loop of the other branch, over the expand's group at the same position.\<close>

fun expandGroupLoop ::
  "OpFoldResult list \<Rightarrow> nat \<Rightarrow> nat list \<Rightarrow> ReshapeState \<Rightarrow> (nat list \<times> ReshapeState) option"
where
  "expandGroupLoop expandSizes 0 newExpandReassociation s =
     Some (newExpandReassociation, s)"
| "expandGroupLoop expandSizes (Suc n) newExpandReassociation s =
     (if expandIndex s < length expandSizes
      then expandGroupLoop expandSizes n (newExpandReassociation @ [index s])
             (s\<lparr>index := index s + 1,
                expandIndex := expandIndex s + 1,
                newCollapseReInds := newCollapseReInds s @ [[index s]],
                newExpandSizes := newExpandSizes s @ [expandSizes ! expandIndex s]\<rparr>)
      else None)"

text \<open>The outer loop over \<open>llvm::enumerate(collapseReInds)\<close>, from position \<open>idx\<close> on.\<close>

fun reassociationLoop ::
  "OpFoldResult list \<Rightarrow> OpFoldResult list \<Rightarrow> nat list list \<Rightarrow> nat \<Rightarrow> nat list list \<Rightarrow>
   ReshapeState \<Rightarrow> ReshapeState option"
where
  "reassociationLoop collapseSizes expandSizes expandReInds idx [] s = Some s"
| "reassociationLoop collapseSizes expandSizes expandReInds idx
     (collapseReassociation # rest) s =
     (if length collapseReassociation \<noteq> 1
      then (case collapseGroupLoop collapseSizes (length collapseReassociation) [] s of
              None \<Rightarrow> None
            | Some (newCollapseReassociation, s1) \<Rightarrow>
                reassociationLoop collapseSizes expandSizes expandReInds (Suc idx) rest
                  (s1\<lparr>newCollapseReInds := newCollapseReInds s1 @ [newCollapseReassociation],
                      expandIndex := expandIndex s1 + 1\<rparr>))
      else if idx < length expandReInds
      then (case expandGroupLoop expandSizes (length (expandReInds ! idx)) [] s of
              None \<Rightarrow> None
            | Some (newExpandReassociation, s1) \<Rightarrow>
                reassociationLoop collapseSizes expandSizes expandReInds (Suc idx) rest
                  (s1\<lparr>newExpandReInds := newExpandReInds s1 @ [newExpandReassociation],
                      collapseIndex := collapseIndex s1 + 1\<rparr>))
      else None)"

text \<open>
  Modelled from the spec: \<open>tensor::getMixedSizes\<close> is a helper of the tensor dialect,
  outside this file. It returns the source's own sizes: the constant for a static
  dimension, the result of a \<open>DimOp\<close> for a dynamic one. The helper asks the builder
  to create or fold the \<open>DimOp\<close>; here it is always created.
\<close>

fun getMixedSizes :: "Graph \<Rightarrow> Value \<Rightarrow> nat \<Rightarrow> int list \<Rightarrow> Graph \<times> OpFoldResult list" where
  "getMixedSizes g v i [] = (g, [])"
| "getMixedSizes g v i (d # ds) =
     (if d = kDynamic
      then (case create g (DimOp v i) of
              (g1, r) \<Rightarrow> (case getMixedSizes g1 v (Suc i) ds of
                            (g2, rs) \<Rightarrow> (g2, Val r # rs)))
      else (case getMixedSizes g v (Suc i) ds of (g2, rs) \<Rightarrow> (g2, Attr d # rs)))"

text \<open>
  Modelled from the spec: the result type that the builder of \<open>CollapseShapeOp\<close> infers
  (\<open>inferCollapsedType\<close>, in the tensor dialect, outside this file). Each group of source
  dimensions merges into one result dimension whose size is their product, or dynamic
  if any factor is dynamic.
\<close>

fun collapsedShape :: "int list \<Rightarrow> nat list list \<Rightarrow> int list" where
  "collapsedShape shp [] = []"
| "collapsedShape shp (grp # rest) =
     (if kDynamic \<in> set (take (length grp) shp) then kDynamic
      else prod_list (take (length grp) shp))
     # collapsedShape (drop (length grp) shp) rest"

text \<open>
  Modelled from the spec: the collapsed type keeps the element type and takes the
  collapsed shape.
\<close>

definition inferCollapsedType :: "RankedTensorType \<Rightarrow> nat list list \<Rightarrow> RankedTensorType" where
  "inferCollapsedType t reassociation =
     RankedTensorType (collapsedShape (getShape t) reassociation) (getElementType t)"

text \<open>
  The pattern itself. \<open>llvm::zip_equal\<close> asserts that the two reassociations have the
  same number of groups (\<open>None\<close> otherwise); the first loop returns a plain failure at the
  first position where both groups have a size other than 1. The sizes of the source are
  fetched, the second loop runs, the static sizes are split off the new sizes, the new
  expansion is created with the result type cloned to these sizes, and the original
  expansion is replaced by a new collapse of it.
\<close>

definition BubbleUpExpandThroughParallelCollapse ::
  "Graph \<Rightarrow> nat \<Rightarrow> (LogicalResult \<times> Graph) option" where
  "BubbleUpExpandThroughParallelCollapse g opId =
     (case getDefiningOp g opId of
        Some (ExpandShapeOp src expandReInds expandSizes resultType) \<Rightarrow>
          (case getDefiningOp g src of
             Some (CollapseShapeOp x collapseReInds t) \<Rightarrow>
               if length expandReInds \<noteq> length collapseReInds then None
               else if list_ex (\<lambda>(expandReassociation, collapseReassociation).
                                  length collapseReassociation \<noteq> 1 \<and>
                                  length expandReassociation \<noteq> 1)
                         (zip expandReInds collapseReInds)
               then Some (failure None, g)
               else
               (case getType g x of
                  None \<Rightarrow> None
                | Some xType \<Rightarrow>
                    (case getMixedSizes g x 0 (getShape xType) of
                       (g1, collapseSizes) \<Rightarrow>
                         (case reassociationLoop collapseSizes expandSizes expandReInds 0
                                 collapseReInds initialState of
                            None \<Rightarrow> None
                          | Some s \<Rightarrow>
                              let staticSizes = map staticOf (newExpandSizes s);
                                  expandResultType =
                                    RankedTensorType staticSizes (getElementType resultType)
                              in (case create g1
                                         (ExpandShapeOp x (newExpandReInds s)
                                            (newExpandSizes s) expandResultType) of
                                    (g2, newExpand) \<Rightarrow>
                                      Some (success,
                                        replaceOpWithNewOp g2 opId
                                          (CollapseShapeOp newExpand (newCollapseReInds s)
                                             (inferCollapsedType expandResultType
                                                (newCollapseReInds s))))))))
           | _ \<Rightarrow> Some (failure None, g))
      | _ \<Rightarrow> Some (failure None, g))"

subsection \<open>The rewrite, position by position\<close>

text \<open>
  The design describes the new reassociations one position at a time, from left to
  right; \<open>positionwise\<close> follows that description and is compared with the loop
  below. A position pairs the collapse's group \<open>cg\<close> with the expand's group \<open>eg\<close>;
  \<open>i\<close> is the next intermediate dimension, \<open>c\<close> the next dimension of the source and
  \<open>e\<close> the next dimension of the original expansion's output. Where the collapse's
  group has size 1, the new expansion splits one source dimension into \<open>length eg\<close>
  intermediate dimensions, sized by the original output shape, and the new collapse keeps
  them as singleton groups. Otherwise the new expansion passes the \<open>length cg\<close> source
  dimensions through as singleton groups, sized by the source's own shape, and the new
  collapse merges them into one group. The result is the new expand's reassociation, the
  new collapse's reassociation and the intermediate sizes.
\<close>

fun positionwise ::
  "nat \<Rightarrow> nat \<Rightarrow> nat \<Rightarrow> OpFoldResult list \<Rightarrow> OpFoldResult list \<Rightarrow>
   (nat list \<times> nat list) list \<Rightarrow> nat list list \<times> nat list list \<times> OpFoldResult list"
where
  "positionwise i c e collapseSizes expandSizes [] = ([], [], [])"
| "positionwise i c e collapseSizes expandSizes ((cg, eg) # rest) =
     (if length cg = 1
      then (case positionwise (i + length eg) (c + length cg) (e + length eg)
                   collapseSizes expandSizes rest of
              (E, C, S) \<Rightarrow>
                ([i..<i + length eg] # E,
                 map (\<lambda>d. [d]) [i..<i + length eg] @ C,
                 take (length eg) (drop e expandSizes) @ S))
      else (case positionwise (i + length cg) (c + length cg) (e + length eg)
                   collapseSizes expandSizes rest of
              (E, C, S) \<Rightarrow>
                (map (\<lambda>d. [d]) [i..<i + length cg] @ E,
                 [i..<i + length cg] # C,
                 take (length cg) (drop c collapseSizes) @ S)))"

section \<open>Registration\<close>

datatype Pattern =
    FoldExpandOfRankReducingExtractPattern
  | FoldUnPaddingCollapseIntoExtractPattern
  | FoldInsertOfRankReducingInsertPattern InsertKind
  | FoldPaddingExpandIntoInsertPattern InsertKind
  | BubbleUpExpandThroughParallelCollapsePattern

fun matchAndRewrite :: "Pattern \<Rightarrow> Graph \<Rightarrow> nat \<Rightarrow> (LogicalResult \<times> Graph) option" where
  "matchAndRewrite FoldExpandOfRankReducingExtractPattern =
     FoldExpandOfRankReducingExtract"
| "matchAndRewrite FoldUnPaddingCollapseIntoExtractPattern =
     FoldUnPaddingCollapseIntoExtract"
| "matchAndRewrite (FoldInsertOfRankReducingInsertPattern OpTy) =
     FoldInsertOfRankReducingInsert OpTy"
| "matchAndRewrite (FoldPaddingExpandIntoInsertPattern OpTy) =
     FoldPaddingExpandIntoInsert OpTy"
| "matchAndRewrite BubbleUpExpandThroughParallelCollapsePattern =
     BubbleUpExpandThroughParallelCollapse"

definition populateReassociativeReshapeFoldingPatterns :: "Pattern list \<Rightarrow> Pattern list" where
  "populateReassociativeReshapeFoldingPatterns patterns =
     patterns @
     [FoldExpandOfRankReducingExtractPattern,
      FoldUnPaddingCollapseIntoExtractPattern,
      FoldInsertOfRankReducingInsertPattern InsertSliceKind,
      FoldInsertOfRankReducingInsertPattern ParallelInsertSliceKind,
      FoldPaddingExpandIntoInsertPattern InsertSliceKind,
      FoldPaddingExpandIntoInsertPattern ParallelInsertSliceKind]"

definition populateBubbleUpExpandShapePatterns :: "Pattern list \<Rightarrow> Pattern list" where
  "populateBubbleUpExpandShapePatterns patterns =
     patterns @ [BubbleUpExpandThroughParallelCollapsePattern]"

section \<open>Index space of a result\<close>

text \<open>
  The indices of a tensor of static shape, in row-major order; the element-wise function
  of a tensor value is defined on exactly these.
\<close>

fun tensorIndices :: "int list \<Rightarrow> int list list" where
  "tensorIndices [] = [[]]"
| "tensorIndices (d # ds) =
     concat (map (\<lambda>i. map (Cons i) (tensorIndices ds)) [0..d - 1])"

section \<open>Example programs\<close>

text \<open>
  \<open>%0 : tensor<8x1x8xf32>\<close>, a rank-reducing extract of a \<open>4x1x4\<close> slice as \<open>tensor<4x4xf32>\<close>,
  expanded back to \<open>tensor<4x1x4xf32>\<close>, and one consumer of the expansion.
\<close>

definition expandOfExtract :: Graph where
  "expandOfExtract =
     [Some (OtherOp [] (Some (RankedTensorType [8, 1, 8] F32))),
      Some (ExtractSliceOp 0 [Attr 2, Attr 0, Attr 0] [Attr 4, Attr 1, Attr 4]
              [Attr 1, Attr 1, Attr 1] (RankedTensorType [4, 4] F32)),
      Some (ExpandShapeOp 1 [[0, 1], [2]] [Attr 4, Attr 1, Attr 4]
              (RankedTensorType [4, 1, 4] F32)),
      Some (OtherOp [2] None)]"

text \<open>
  An extract of a \<open>4x1x4\<close> slice without rank reduction, collapsed to \<open>tensor<4x4xf32>\<close>;
  in the second program the extract has a second user.
\<close>

definition collapseOfExtract :: Graph where
  "collapseOfExtract =
     [Some (OtherOp [] (Some (RankedTensorType [8, 8, 8] F32))),
      Some (ExtractSliceOp 0 [Attr 2, Attr 0, Attr 0] [Attr 4, Attr 1, Attr 4]
              [Attr 1, Attr 1, Attr 1] (RankedTensorType [4, 1, 4] F32)),
      Some (CollapseShapeOp 1 [[0, 1], [2]] (RankedTensorType [4, 4] F32)),
      Some (OtherOp [2] None)]"

definition collapseOfSharedExtract :: Graph where
  "collapseOfSharedExtract = collapseOfExtract @ [Some (OtherOp [1] None)]"

text \<open>
  \<open>%0 : tensor<4x1x4xf32>\<close> collapsed to \<open>tensor<4x4xf32>\<close> and inserted, rank-reducing,
  into a \<open>4x1x4\<close> region of \<open>%2 : tensor<8x8x8xf32>\<close>.
\<close>

definition insertOfCollapse :: "InsertKind \<Rightarrow> Graph" where
  "insertOfCollapse OpTy =
     [Some (OtherOp [] (Some (RankedTensorType [4, 1, 4] F32))),
      Some (CollapseShapeOp 0 [[0, 1], [2]] (RankedTensorType [4, 4] F32)),
      Some (OtherOp [] (Some (RankedTensorType [8, 8, 8] F32))),
      Some (InsertSliceOp OpTy 1 2 [Attr 0, Attr 0, Attr 0] [Attr 4, Attr 1, Attr 4]
              [Attr 1, Attr 1, Attr 1]
              (case OpTy of InsertSliceKind \<Rightarrow> Some (RankedTensorType [8, 8, 8] F32)
                          | ParallelInsertSliceKind \<Rightarrow> None))]"

text \<open>
  \<open>%0 : tensor<4xf32>\<close> padded to \<open>tensor<1x4xf32>\<close>, padded again to
  \<open>tensor<1x1x4xf32>\<close>, and inserted into \<open>%3 : tensor<8x8x8xf32>\<close>.
\<close>

definition insertOfExpandOfExpand :: Graph where
  "insertOfExpandOfExpand =
     [Some (OtherOp [] (Some (RankedTensorType [4] F32))),
      Some (ExpandShapeOp 0 [[0, 1]] [Attr 1, Attr 4] (RankedTensorType [1, 4] F32)),
      Some (ExpandShapeOp 1 [[0, 1], [2]] [Attr 1, Attr 1, Attr 4]
              (RankedTensorType [1, 1, 4] F32)),
      Some (OtherOp [] (Some (RankedTensorType [8, 8, 8] F32))),
      Some (InsertSliceOp InsertSliceKind 2 3 [Attr 0, Attr 0, Attr 0]
              [Attr 1, Attr 1, Attr 4] [Attr 1, Attr 1, Attr 1]
              (Some (RankedTensorType [8, 8, 8] F32)))]"

text \<open>An extract of a \<open>4x2x4\<close> slice whose collapse to \<open>tensor<8x4xf32>\<close> really merges.\<close>

definition collapseMergingExtract :: Graph where
  "collapseMergingExtract =
     [Some (OtherOp [] (Some (RankedTensorType [8, 8, 8] F32))),
      Some (ExtractSliceOp 0 [Attr 2, Attr 0, Attr 0] [Attr 4, Attr 2, Attr 4]
              [Attr 1, Attr 1, Attr 1] (RankedTensorType [4, 2, 4] F32)),
      Some (CollapseShapeOp 1 [[0, 1], [2]] (RankedTensorType [8, 4] F32)),
      Some (OtherOp [2] None)]"

text \<open>
  \<open>%0 : tensor<2x?x12xf32>\<close> collapsed by \<open>[[0, 1], [2]]\<close> to \<open>tensor<?x12xf32>\<close> and
  expanded by \<open>[[0], [1, 2]]\<close> to \<open>tensor<?x3x4xf32>\<close>; slot 1 is the index value that
  gives the dynamic output size.
\<close>

definition expandOfCollapse :: Graph where
  "expandOfCollapse =
     [Some (OtherOp [] (Some (RankedTensorType [2, kDynamic, 12] F32))),
      Some (OtherOp [] None),
      Some (CollapseShapeOp 0 [[0, 1], [2]] (RankedTensorType [kDynamic, 12] F32)),
      Some (ExpandShapeOp 2 [[0], [1, 2]] [Val 1, Attr 3, Attr 4]
              (RankedTensorType [kDynamic, 3, 4] F32)),
      Some (OtherOp [3] None)]"

text \<open>
  Both reshapes fan at position 0: \<open>tensor<2x6xf32>\<close> collapsed to \<open>tensor<12xf32>\<close>
  and expanded to \<open>tensor<3x4xf32>\<close>.
\<close>

definition expandOfCollapseNotParallel :: Graph where
  "expandOfCollapseNotParallel =
     [Some (OtherOp [] (Some (RankedTensorType [2, 6] F32))),
      Some (CollapseShapeOp 0 [[0, 1]] (RankedTensorType [12] F32)),
      Some (ExpandShapeOp 1 [[0, 1]] [Attr 3, Attr 4] (RankedTensorType [3, 4] F32)),
      Some (OtherOp [2] None)]"

text \<open>
  \<open>%0 : tensor<1x1xf32>\<close> collapsed to the rank-0 \<open>tensor<f32>\<close> and expanded back to
  \<open>tensor<1x1xf32>\<close>; a reshape to or from rank 0 has the empty reassociation.
\<close>

definition expandOfCollapseRankZero :: Graph where
  "expandOfCollapseRankZero =
     [Some (OtherOp [] (Some (RankedTensorType [1, 1] F32))),
      Some (CollapseShapeOp 0 [] (RankedTensorType [] F32)),
      Some (ExpandShapeOp 1 [] [Attr 1, Attr 1] (RankedTensorType [1, 1] F32)),
      Some (OtherOp [2] None)]"

text \<open>
  \<open>%0 : tensor<4xf32>\<close> padded to \<open>tensor<1x4xf32>\<close> and inserted into
  \<open>%2 : tensor<8x8xf32>\<close>.
\<close>

definition insertOfExpand :: Graph where
  "insertOfExpand =
     [Some (OtherOp [] (Some (RankedTensorType [4] F32))),
      Some (ExpandShapeOp 0 [[0, 1]] [Attr 1, Attr 4] (RankedTensorType [1, 4] F32)),
      Some (OtherOp [] (Some (RankedTensorType [8, 8] F32))),
      Some (InsertSliceOp InsertSliceKind 1 2 [Attr 0, Attr 0] [Attr 1, Attr 4]
              [Attr 1, Attr 1] (Some (RankedTensorType [8, 8] F32)))]"

text \<open>
  \<open>%0 : tensor<4x1x4xf32>\<close> passed through a collapse with the identity reassociation,
  collapsed to \<open>tensor<4x4xf32>\<close> and inserted into a \<open>4x1x4\<close> region of
  \<open>%3 : tensor<8x8x8xf32>\<close>.
\<close>

definition insertOfCollapseOfCollapse :: Graph where
  "insertOfCollapseOfCollapse =
     [Some (OtherOp [] (Some (RankedTensorType [4, 1, 4] F32))),
      Some (CollapseShapeOp 0 [[0], [1], [2]] (RankedTensorType [4, 1, 4] F32)),
      Some (CollapseShapeOp 1 [[0, 1], [2]] (RankedTensorType [4, 4] F32)),
      Some (OtherOp [] (Some (RankedTensorType [8, 8, 8] F32))),
      Some (InsertSliceOp InsertSliceKind 2 3 [Attr 0, Attr 0, Attr 0]
              [Attr 4, Attr 1, Attr 4] [Attr 1, Attr 1, Attr 1]
              (Some (RankedTensorType [8, 8, 8] F32)))]"

text \<open>
  The rank-reducing extract and its expansion to \<open>tensor<4x1x4xf32>\<close> again, the expansion
  now feeding an expansion with the identity reassociation.
\<close>

definition expandOfExpandOfExtract :: Graph where
  "expandOfExpandOfExtract =
     [Some (OtherOp [] (Some (RankedTensorType [8, 1, 8] F32))),
      Some (ExtractSliceOp 0 [Attr 2, Attr 0, Attr 0] [Attr 4, Attr 1, Attr 4]
              [Attr 1, Attr 1, Attr 1] (RankedTensorType [4, 4] F32)),
      Some (ExpandShapeOp 1 [[0, 1], [2]] [Attr 4, Attr 1, Attr 4]
              (RankedTensorType [4, 1, 4] F32)),
      Some (ExpandShapeOp 2 [[0], [1], [2]] [Attr 4, Attr 1, Attr 4]
              (RankedTensorType [4, 1, 4] F32)),
      Some (OtherOp [3] None)]"

text \<open>
  An extract of a \<open>4x1x1x4\<close> slice collapsed to \<open>tensor<4x1x4xf32>\<close> and then to
  \<open>tensor<4x4xf32>\<close>, each value with one use.
\<close>

definition collapseOfCollapseOfExtract :: Graph where
  "collapseOfCollapseOfExtract =
     [Some (OtherOp [] (Some (RankedTensorType [8, 8, 8, 8] F32))),
      Some (ExtractSliceOp 0 [Attr 2, Attr 0, Attr 0, Attr 0] [Attr 4, Attr 1, Attr 1, Attr 4]
              [Attr 1, Attr 1, Attr 1, Attr 1] (RankedTensorType [4, 1, 1, 4] F32)),
      Some (CollapseShapeOp 1 [[0, 1], [2], [3]] (RankedTensorType [4, 1, 4] F32)),
      Some (CollapseShapeOp 2 [[0, 1], [2]] (RankedTensorType [4, 4] F32)),
      Some (OtherOp [3] None)]"

text \<open>
  \<open>%0 : tensor<8xf32>\<close> split to \<open>tensor<2x4xf32>\<close>, padded to \<open>tensor<1x2x4xf32>\<close> and
  inserted into \<open>%3 : tensor<8x8x8xf32>\<close>: only the outer expansion is a padding.
\<close>

definition insertOfExpandOfSplit :: Graph where
  "insertOfExpandOfSplit =
     [Some (OtherOp [] (Some (RankedTensorType [8] F32))),
      Some (ExpandShapeOp 0 [[0, 1]] [Attr 2, Attr 4] (RankedTensorType [2, 4] F32)),
      Some (ExpandShapeOp 1 [[0, 1], [2]] [Attr 1, Attr 2, Attr 4]
              (RankedTensorType [1, 2, 4] F32)),
      Some (OtherOp [] (Some (RankedTensorType [8, 8, 8] F32))),
      Some (InsertSliceOp InsertSliceKind 2 3 [Attr 0, Attr 0, Attr 0]
              [Attr 1, Attr 2, Attr 4] [Attr 1, Attr 1, Attr 1]
              (Some (RankedTensorType [8, 8, 8] F32)))]"

section \<open>Properties of the arena\<close>

lemma getDefiningOp_Some_lt:
  "getDefiningOp g v = Some op \<Longrightarrow> v < length g \<and> g ! v = Some op"
  by (auto simp: getDefiningOp_def split: if_splits)

lemma numUses_ge:
  assumes "getDefiningOp g i = Some op" "v \<in> set (operandsOf op)"
  shows "1 \<le> numUses g v"
proof -
  from assms(1) have i: "i < length g" "g ! i = Some op"
    by (auto dest: getDefiningOp_Some_lt)
  have "g ! i \<in> set g"
    using i(1) by (rule nth_mem)
  then have "usesIn v (g ! i) \<in> set (map (usesIn v) g)"
    by simp
  then have "usesIn v (g ! i) \<le> sum_list (map (usesIn v) g)"
    by (simp add: member_le_sum_list)
  moreover have "1 \<le> usesIn v (g ! i)"
    using assms(2) i(2) count_list_0_iff [of "operandsOf op" v] by simp
  ultimately show ?thesis
    unfolding numUses_def by linarith
qed

section \<open>Meaning of the rank-reduction test\<close>

text \<open>
  When the test succeeds, the reduced type has the element type of the original, its
  shape is a subsequence of the original shape, and every dimension left out has static
  size 1.
\<close>


lemma computeRankReductionMask_drops_units:
  "computeRankReductionMask i original reduced = Some unusedDims \<Longrightarrow>
     subseq reduced original \<and>
     mset original = mset reduced + replicate_mset (length unusedDims) 1"
proof (induction i original reduced arbitrary: unusedDims rule: computeRankReductionMask.induct)
  case (1 i)
  then show ?case by simp
next
  case (2 i r rs)
  then show ?case by simp
next
  case (3 i d ds)
  then show ?case by (auto split: if_splits)
next
  case (4 i d ds r rs)
  then show ?case by (auto split: if_splits)
qed

lemma isRankReducedType_drops_units:
  assumes "isRankReducedType originalType reducedType = Success"
  shows "getElementType reducedType = getElementType originalType \<and>
         subseq (getShape reducedType) (getShape originalType) \<and>
         (\<exists>n. mset (getShape originalType) = mset (getShape reducedType) + replicate_mset n 1)"
proof (cases "originalType = reducedType")
  case True
  then show ?thesis
    by (auto intro: exI [of _ 0])
next
  case False
  with assms obtain unusedDims where
    m: "computeRankReductionMask 0 (getShape originalType) (getShape reducedType) = Some unusedDims"
    and e: "getElementType originalType = getElementType reducedType"
    by (auto simp: isRankReducedType_def split: if_splits)
  from computeRankReductionMask_drops_units [OF m] e show ?thesis
    by auto
qed


section \<open>Fold expand-after-extract\<close>

text \<open>
  C2: on an expansion whose source is produced by an extract, the pattern matches if and
  only if the non-reducing slice type inferred from the extract's source type and its
  static offsets, sizes and strides equals the result type of the expansion. On a match
  it creates one new extract on the original source with the same mixed offsets, sizes
  and strides, of the non-reducing type, and replaces the expansion by it; otherwise it
  fails and leaves the program as it is.
\<close>

theorem FoldExpandOfRankReducingExtract_match_iff:
  assumes "getDefiningOp g opId = Some (ExpandShapeOp src re out resultType)"
      and "getDefiningOp g src = Some (ExtractSliceOp x offs szs strs t)"
      and "getType g x = Some srcType"
  shows "((\<exists>g'. FoldExpandOfRankReducingExtract g opId = Some (success, g')) \<longleftrightarrow>
            inferResultType srcType (map staticOf offs) (map staticOf szs) (map staticOf strs)
              = resultType) \<and>
         FoldExpandOfRankReducingExtract g opId =
           (if inferResultType srcType (map staticOf offs) (map staticOf szs)
                 (map staticOf strs) = resultType
            then Some (success,
                   replaceOp (g @ [Some (ExtractSliceOp x offs szs strs
                       (inferResultType srcType (map staticOf offs) (map staticOf szs)
                          (map staticOf strs)))]) opId (length g))
            else Some (failure None, g))"
  using assms
  by (simp add: FoldExpandOfRankReducingExtract_def buildExtractSliceOp_def
        replaceOpWithNewOp_def create_def Let_def)

theorem FoldExpandOfRankReducingExtract_match_iff_witness:
  "getDefiningOp expandOfExtract 2 =
     Some (ExpandShapeOp 1 [[0, 1], [2]] [Attr 4, Attr 1, Attr 4]
             (RankedTensorType [4, 1, 4] F32)) \<and>
   getDefiningOp expandOfExtract 1 =
     Some (ExtractSliceOp 0 [Attr 2, Attr 0, Attr 0] [Attr 4, Attr 1, Attr 4]
             [Attr 1, Attr 1, Attr 1] (RankedTensorType [4, 4] F32)) \<and>
   getType expandOfExtract 0 = Some (RankedTensorType [8, 1, 8] F32) \<and>
   FoldExpandOfRankReducingExtract expandOfExtract 2 =
     Some (success,
       [Some (OtherOp [] (Some (RankedTensorType [8, 1, 8] F32))),
        Some (ExtractSliceOp 0 [Attr 2, Attr 0, Attr 0] [Attr 4, Attr 1, Attr 4]
                [Attr 1, Attr 1, Attr 1] (RankedTensorType [4, 4] F32)),
        None,
        Some (OtherOp [4] None),
        Some (ExtractSliceOp 0 [Attr 2, Attr 0, Attr 0] [Attr 4, Attr 1, Attr 4]
                [Attr 1, Attr 1, Attr 1] (RankedTensorType [4, 1, 4] F32))])"
proof -
  have h1: "getDefiningOp expandOfExtract 2 =
     Some (ExpandShapeOp 1 [[0, 1], [2]] [Attr 4, Attr 1, Attr 4]
             (RankedTensorType [4, 1, 4] F32))"
    by (simp add: expandOfExtract_def getDefiningOp_def)
  have h2: "getDefiningOp expandOfExtract 1 =
     Some (ExtractSliceOp 0 [Attr 2, Attr 0, Attr 0] [Attr 4, Attr 1, Attr 4]
             [Attr 1, Attr 1, Attr 1] (RankedTensorType [4, 4] F32))"
    by (simp add: expandOfExtract_def getDefiningOp_def)
  have h3: "getType expandOfExtract 0 = Some (RankedTensorType [8, 1, 8] F32)"
    by (simp add: expandOfExtract_def getType_def getDefiningOp_def)
  show ?thesis
    using FoldExpandOfRankReducingExtract_match_iff [OF h1 h2 h3] h1 h2 h3
    by (simp add: inferResultType_def expandOfExtract_def replaceOp_def eraseOp_def
          replaceAllUsesWith_def)
qed

section \<open>Contract of the collapse-into-extract pattern\<close>

lemma FoldUnPaddingCollapseIntoExtract_no_extract:
  assumes "getDefiningOp g opId = Some (CollapseShapeOp src re resultType)"
      and "\<forall>x offs szs strs t. getDefiningOp g src \<noteq> Some (ExtractSliceOp x offs szs strs t)"
  shows "FoldUnPaddingCollapseIntoExtract g opId = Some (failure None, g)"
  using assms
  by (simp add: FoldUnPaddingCollapseIntoExtract_def split: option.splits Operation.splits)

lemma FoldUnPaddingCollapseIntoExtract_on_extract:
  assumes "getDefiningOp g opId = Some (CollapseShapeOp src re resultType)"
      and "getDefiningOp g src = Some (ExtractSliceOp x offs szs strs t)"
  shows "FoldUnPaddingCollapseIntoExtract g opId =
           (if 1 < numUses g src then Some (failure None, g)
            else if isRankReducedType t resultType \<noteq> Success
              then Some (failure (Some ''expected unpadding collapse''), g)
            else Some (success,
                   replaceOp (g @ [Some (ExtractSliceOp x offs szs strs resultType)]) opId
                     (length g)))"
proof -
  have "1 \<le> numUses g src"
    using numUses_ge [OF assms(1), of src] by simp
  then have "hasOneUse g src \<longleftrightarrow> \<not> 1 < numUses g src"
    by (auto simp: hasOneUse_def)
  moreover have "getType g src = Some t"
    using assms(2) by (simp add: getType_def)
  ultimately show ?thesis
    using assms by (simp add: FoldUnPaddingCollapseIntoExtract_def create_def)
qed

text \<open>
  C7, as the code has it: on a collapse, the pattern fails exactly when the source is not
  produced by an extract, or the extract has more than one use, or the collapse is not a
  rank reduction of its source type. Only the last failure carries a diagnostic reason
  (\<open>expected unpadding collapse\<close>); with no producing extract and with a shared extract
  the failure is plain, without a reason. The pattern always returns.
\<close>

theorem FoldUnPaddingCollapseIntoExtract_failure_cases:
  assumes "getDefiningOp g opId = Some (CollapseShapeOp src re resultType)"
  shows "((\<exists>m. FoldUnPaddingCollapseIntoExtract g opId = Some (failure m, g)) \<longleftrightarrow>
            (\<forall>x offs szs strs t.
               getDefiningOp g src \<noteq> Some (ExtractSliceOp x offs szs strs t)) \<or>
            1 < numUses g src \<or>
            (\<exists>srcType. getType g src = Some srcType \<and>
               isRankReducedType srcType resultType \<noteq> Success)) \<and>
         (FoldUnPaddingCollapseIntoExtract g opId =
            Some (failure (Some ''expected unpadding collapse''), g) \<longleftrightarrow>
            (\<exists>x offs szs strs t.
               getDefiningOp g src = Some (ExtractSliceOp x offs szs strs t)) \<and>
            numUses g src = 1 \<and>
            (\<exists>srcType. getType g src = Some srcType \<and>
               isRankReducedType srcType resultType \<noteq> Success)) \<and>
         (FoldUnPaddingCollapseIntoExtract g opId = Some (failure None, g) \<longleftrightarrow>
            (\<forall>x offs szs strs t.
               getDefiningOp g src \<noteq> Some (ExtractSliceOp x offs szs strs t)) \<or>
            1 < numUses g src) \<and>
         (\<exists>r g'. FoldUnPaddingCollapseIntoExtract g opId = Some (r, g'))"
proof (cases "\<exists>x offs szs strs t. getDefiningOp g src = Some (ExtractSliceOp x offs szs strs t)")
  case True
  then obtain x offs szs strs t
    where ext: "getDefiningOp g src = Some (ExtractSliceOp x offs szs strs t)"
    by blast
  have ty: "getType g src = Some t"
    using ext by (simp add: getType_def)
  have ge: "1 \<le> numUses g src"
    using numUses_ge [OF assms, of src] by simp
  show ?thesis
    using FoldUnPaddingCollapseIntoExtract_on_extract [OF assms ext] ext ty ge by auto
next
  case False
  then have no: "\<forall>x offs szs strs t.
      getDefiningOp g src \<noteq> Some (ExtractSliceOp x offs szs strs t)"
    by blast
  show ?thesis
    using FoldUnPaddingCollapseIntoExtract_no_extract [OF assms no] no by simp
qed

text \<open>
  The extract has one use, the collapse merges a dimension of size 2: the failure carries
  the reason.
\<close>

theorem FoldUnPaddingCollapseIntoExtract_failure_cases_witness:
  "getDefiningOp collapseMergingExtract 2 =
     Some (CollapseShapeOp 1 [[0, 1], [2]] (RankedTensorType [8, 4] F32)) \<and>
   FoldUnPaddingCollapseIntoExtract collapseMergingExtract 2 =
     Some (failure (Some ''expected unpadding collapse''), collapseMergingExtract)"
proof -
  have h1: "getDefiningOp collapseMergingExtract 2 =
      Some (CollapseShapeOp 1 [[0, 1], [2]] (RankedTensorType [8, 4] F32))"
    by (simp add: collapseMergingExtract_def getDefiningOp_def)
  have h2: "getDefiningOp collapseMergingExtract 1 =
      Some (ExtractSliceOp 0 [Attr 2, Attr 0, Attr 0] [Attr 4, Attr 2, Attr 4]
              [Attr 1, Attr 1, Attr 1] (RankedTensorType [4, 2, 4] F32))"
    by (simp add: collapseMergingExtract_def getDefiningOp_def)
  have h3: "numUses collapseMergingExtract 1 = 1"
    by (simp add: collapseMergingExtract_def numUses_def)
  have h4: "getType collapseMergingExtract 1 = Some (RankedTensorType [4, 2, 4] F32)"
    using h2 by (simp add: getType_def)
  have h5: "isRankReducedType (RankedTensorType [4, 2, 4] F32) (RankedTensorType [8, 4] F32)
      \<noteq> Success"
    by (simp add: isRankReducedType_def)
  show ?thesis
    using FoldUnPaddingCollapseIntoExtract_failure_cases [OF h1] h1 h2 h3 h4 h5 by simp
qed


text \<open>
  C7 as stated fails: the extract of this program has two uses, and the pattern fails
  without any diagnostic reason.
\<close>

theorem FoldUnPaddingCollapseIntoExtract_shared_extract_silent:
  "numUses collapseOfSharedExtract 1 = 2 \<and>
   FoldUnPaddingCollapseIntoExtract collapseOfSharedExtract 2 =
     Some (failure None, collapseOfSharedExtract)"
  by (simp add: collapseOfSharedExtract_def collapseOfExtract_def numUses_def
        FoldUnPaddingCollapseIntoExtract_def getDefiningOp_def hasOneUse_def)


section \<open>Contract of the collapse-into-insert pattern\<close>

text \<open>
  C3: on an insert of kind \<open>OpTy\<close> whose source is produced by a collapse, the pattern
  matches if and only if the tensor type built from the insert's static sizes and the
  element type of the destination equals the type of the collapse's source. On a match
  it replaces the insert by a new insert of the same kind whose source is the collapse's
  source, with the same destination, offsets, sizes and strides. The statement is the
  same for both kinds of insert, and both instantiations are registered.
\<close>

theorem FoldInsertOfRankReducingInsert_match_iff:
  assumes "getDefiningOp g opId = Some (InsertSliceOp OpTy source dest offs szs strs rt)"
      and "getDefiningOp g source = Some (CollapseShapeOp x re t)"
      and "getType g x = Some srcType"
      and "getType g dest = Some destType"
  shows "((\<exists>g'. FoldInsertOfRankReducingInsert OpTy g opId = Some (success, g')) \<longleftrightarrow>
            RankedTensorType (map staticOf szs) (getElementType destType) = srcType) \<and>
         FoldInsertOfRankReducingInsert OpTy g opId =
           (if RankedTensorType (map staticOf szs) (getElementType destType) = srcType
            then Some (success,
                   replaceOp (g @ [Some (InsertSliceOp OpTy x dest offs szs strs
                       (case OpTy of InsertSliceKind \<Rightarrow> Some destType
                                   | ParallelInsertSliceKind \<Rightarrow> None))])
                     opId (length g))
            else Some (failure None, g)) \<and>
         FoldInsertOfRankReducingInsertPattern OpTy
           \<in> set (populateReassociativeReshapeFoldingPatterns patterns)"
  using assms
  by (cases OpTy)
     (simp_all add: FoldInsertOfRankReducingInsert_def populateReassociativeReshapeFoldingPatterns_def
        replaceOpWithNewOp_def create_def Let_def buildInsertSliceOp_def)

theorem FoldInsertOfRankReducingInsert_match_iff_witness:
  "FoldInsertOfRankReducingInsert InsertSliceKind (insertOfCollapse InsertSliceKind) 3 =
     Some (success,
       [Some (OtherOp [] (Some (RankedTensorType [4, 1, 4] F32))),
        Some (CollapseShapeOp 0 [[0, 1], [2]] (RankedTensorType [4, 4] F32)),
        Some (OtherOp [] (Some (RankedTensorType [8, 8, 8] F32))),
        None,
        Some (InsertSliceOp InsertSliceKind 0 2 [Attr 0, Attr 0, Attr 0]
                [Attr 4, Attr 1, Attr 4] [Attr 1, Attr 1, Attr 1]
                (Some (RankedTensorType [8, 8, 8] F32)))]) \<and>
   FoldInsertOfRankReducingInsert ParallelInsertSliceKind
       (insertOfCollapse ParallelInsertSliceKind) 3 =
     Some (success,
       [Some (OtherOp [] (Some (RankedTensorType [4, 1, 4] F32))),
        Some (CollapseShapeOp 0 [[0, 1], [2]] (RankedTensorType [4, 4] F32)),
        Some (OtherOp [] (Some (RankedTensorType [8, 8, 8] F32))),
        None,
        Some (InsertSliceOp ParallelInsertSliceKind 0 2 [Attr 0, Attr 0, Attr 0]
                [Attr 4, Attr 1, Attr 4] [Attr 1, Attr 1, Attr 1] None)])"
proof -
  have h1: "getDefiningOp (insertOfCollapse k) 3 =
      Some (InsertSliceOp k 1 2 [Attr 0, Attr 0, Attr 0] [Attr 4, Attr 1, Attr 4]
              [Attr 1, Attr 1, Attr 1]
              (case k of InsertSliceKind \<Rightarrow> Some (RankedTensorType [8, 8, 8] F32)
                       | ParallelInsertSliceKind \<Rightarrow> None))" for k
    by (simp add: insertOfCollapse_def getDefiningOp_def)
  have h2: "getDefiningOp (insertOfCollapse k) 1 =
      Some (CollapseShapeOp 0 [[0, 1], [2]] (RankedTensorType [4, 4] F32))" for k
    by (simp add: insertOfCollapse_def getDefiningOp_def)
  have h3: "getType (insertOfCollapse k) 0 = Some (RankedTensorType [4, 1, 4] F32)" for k
    by (simp add: insertOfCollapse_def getType_def getDefiningOp_def)
  have h4: "getType (insertOfCollapse k) 2 = Some (RankedTensorType [8, 8, 8] F32)" for k
    by (simp add: insertOfCollapse_def getType_def getDefiningOp_def)
  show ?thesis
    using FoldInsertOfRankReducingInsert_match_iff [OF h1 h2 h3 h4, of InsertSliceKind]
      FoldInsertOfRankReducingInsert_match_iff [OF h1 h2 h3 h4, of ParallelInsertSliceKind]
    by (simp add: insertOfCollapse_def replaceOp_def eraseOp_def replaceAllUsesWith_def)
qed


section \<open>Frame of the expand-into-insert pattern\<close>

text \<open>
  C4: when the source of an insert is produced by an expansion that only adds dimensions
  of static size 1, the pattern succeeds and changes nothing but the source operand of
  the insert, which becomes the source of the expansion: the insert stays in its slot with
  the same kind, destination, offsets, sizes, strides and result type, no operation is
  added or removed, and every other operation is untouched.
\<close>

theorem FoldPaddingExpandIntoInsert_frame:
  assumes "getDefiningOp g opId = Some (InsertSliceOp OpTy source dest offs szs strs rt)"
      and "getDefiningOp g source = Some (ExpandShapeOp x re out resultType)"
      and "getType g x = Some srcType"
      and "isRankReducedType resultType srcType = Success"
  shows "\<exists>g'. FoldPaddingExpandIntoInsert OpTy g opId = Some (success, g') \<and>
           length g' = length g \<and>
           getDefiningOp g' opId = Some (InsertSliceOp OpTy x dest offs szs strs rt) \<and>
           (\<forall>i. i \<noteq> opId \<longrightarrow> getDefiningOp g' i = getDefiningOp g i)"
proof -
  from assms(1) have lt: "opId < length g" by (simp add: getDefiningOp_Some_lt)
  have "FoldPaddingExpandIntoInsert OpTy g opId =
          Some (success, g[opId := Some (InsertSliceOp OpTy x dest offs szs strs rt)])"
    using assms by (simp add: FoldPaddingExpandIntoInsert_def modifyOpInPlace_def)
  moreover have "getDefiningOp (g[opId := Some (InsertSliceOp OpTy x dest offs szs strs rt)]) opId
      = Some (InsertSliceOp OpTy x dest offs szs strs rt)"
    using lt by (simp add: getDefiningOp_def)
  moreover have "\<forall>i. i \<noteq> opId \<longrightarrow>
      getDefiningOp (g[opId := Some (InsertSliceOp OpTy x dest offs szs strs rt)]) i
        = getDefiningOp g i"
    by (simp add: getDefiningOp_def)
  ultimately show ?thesis by simp
qed

theorem FoldPaddingExpandIntoInsert_frame_witness:
  "isRankReducedType (RankedTensorType [1, 1, 4] F32) (RankedTensorType [1, 4] F32) = Success \<and>
   (\<exists>g'. FoldPaddingExpandIntoInsert InsertSliceKind insertOfExpandOfExpand 4 =
            Some (success, g') \<and>
          length g' = length insertOfExpandOfExpand \<and>
          getDefiningOp g' 4 =
            Some (InsertSliceOp InsertSliceKind 1 3 [Attr 0, Attr 0, Attr 0]
                    [Attr 1, Attr 1, Attr 4] [Attr 1, Attr 1, Attr 1]
                    (Some (RankedTensorType [8, 8, 8] F32))) \<and>
          (\<forall>i. i \<noteq> 4 \<longrightarrow> getDefiningOp g' i = getDefiningOp insertOfExpandOfExpand i))"
proof -
  have h1: "getDefiningOp insertOfExpandOfExpand 4 =
      Some (InsertSliceOp InsertSliceKind 2 3 [Attr 0, Attr 0, Attr 0]
              [Attr 1, Attr 1, Attr 4] [Attr 1, Attr 1, Attr 1]
              (Some (RankedTensorType [8, 8, 8] F32)))"
    by (simp add: insertOfExpandOfExpand_def getDefiningOp_def)
  have h2: "getDefiningOp insertOfExpandOfExpand 2 =
      Some (ExpandShapeOp 1 [[0, 1], [2]] [Attr 1, Attr 1, Attr 4]
              (RankedTensorType [1, 1, 4] F32))"
    by (simp add: insertOfExpandOfExpand_def getDefiningOp_def)
  have h3: "getType insertOfExpandOfExpand 1 = Some (RankedTensorType [1, 4] F32)"
    by (simp add: insertOfExpandOfExpand_def getType_def getDefiningOp_def)
  have h4: "isRankReducedType (RankedTensorType [1, 1, 4] F32) (RankedTensorType [1, 4] F32)
      = Success"
    by (simp add: isRankReducedType_def)
  show ?thesis
    using FoldPaddingExpandIntoInsert_frame [OF h1 h2 h3 h4] h4 by simp
qed


section \<open>Match failure leaves the program unchanged\<close>

lemma FoldExpandOfRankReducingExtract_failure_unchanged: "FoldExpandOfRankReducingExtract g opId = Some (failure m, g') \<Longrightarrow> g' = g"
  unfolding FoldExpandOfRankReducingExtract_def Let_def
  by (simp split: option.splits Operation.splits if_splits)

lemma FoldUnPaddingCollapseIntoExtract_failure_unchanged: "FoldUnPaddingCollapseIntoExtract g opId = Some (failure m, g') \<Longrightarrow> g' = g"
  unfolding FoldUnPaddingCollapseIntoExtract_def Let_def
  by (simp split: option.splits Operation.splits if_splits prod.splits)

lemma FoldInsertOfRankReducingInsert_failure_unchanged: "FoldInsertOfRankReducingInsert k g opId = Some (failure m, g') \<Longrightarrow> g' = g"
  unfolding FoldInsertOfRankReducingInsert_def Let_def
  by (simp split: option.splits Operation.splits if_splits)

lemma FoldPaddingExpandIntoInsert_failure_unchanged: "FoldPaddingExpandIntoInsert k g opId = Some (failure m, g') \<Longrightarrow> g' = g"
  unfolding FoldPaddingExpandIntoInsert_def Let_def
  by (simp split: option.splits Operation.splits if_splits)

lemma BubbleUpExpandThroughParallelCollapse_failure_unchanged: "BubbleUpExpandThroughParallelCollapse g opId = Some (failure m, g') \<Longrightarrow> g' = g"
  unfolding BubbleUpExpandThroughParallelCollapse_def Let_def
  by (simp split: option.splits Operation.splits if_splits prod.splits)

text \<open>
  C9: whenever one of the five patterns reports a match failure, the program it returns
  is the program it was given.
\<close>

theorem matchAndRewrite_failure_atomic:
  assumes "matchAndRewrite p g opId = Some (failure m, g')"
  shows "g' = g"
  using assms by (cases p) (simp_all add: FoldExpandOfRankReducingExtract_failure_unchanged FoldUnPaddingCollapseIntoExtract_failure_unchanged FoldInsertOfRankReducingInsert_failure_unchanged FoldPaddingExpandIntoInsert_failure_unchanged BubbleUpExpandThroughParallelCollapse_failure_unchanged)



theorem matchAndRewrite_failure_atomic_witness:
  "fst (the (matchAndRewrite FoldUnPaddingCollapseIntoExtractPattern
               collapseOfSharedExtract 2)) = failure None \<and>
   snd (the (matchAndRewrite FoldUnPaddingCollapseIntoExtractPattern
               collapseOfSharedExtract 2)) = collapseOfSharedExtract"
proof -
  have h: "matchAndRewrite FoldUnPaddingCollapseIntoExtractPattern collapseOfSharedExtract 2 =
      Some (failure None,
        snd (the (matchAndRewrite FoldUnPaddingCollapseIntoExtractPattern
                    collapseOfSharedExtract 2)))"
    by (simp add: collapseOfSharedExtract_def collapseOfExtract_def numUses_def
          FoldUnPaddingCollapseIntoExtract_def getDefiningOp_def hasOneUse_def)
  show ?thesis
    using matchAndRewrite_failure_atomic [OF h] h by simp
qed



section \<open>The loop of the bubble-up pattern\<close>



lemma upt_add_Suc_eq: "[i..<Suc (i + n)] = i # [Suc i..<Suc (i + n)]"
  by (simp add: upt_conv_Cons)

lemma take_Suc_drop: "c < length cs \<Longrightarrow> take (Suc n) (drop c cs) = cs ! c # take n (drop (Suc c) cs)"
  by (simp add: Cons_nth_drop_Suc [symmetric])

lemma collapseGroupLoop_eq:
  "collapseIndex s + n \<le> length cs \<Longrightarrow>
   collapseGroupLoop cs n grp s =
     Some (grp @ [index s..<index s + n],
           s\<lparr>index := index s + n,
              collapseIndex := collapseIndex s + n,
              newExpandReInds := newExpandReInds s @ map (\<lambda>d. [d]) [index s..<index s + n],
              newExpandSizes := newExpandSizes s @ take n (drop (collapseIndex s) cs)\<rparr>)"
proof (induction n arbitrary: grp s)
  case 0
  then show ?case by simp
next
  case (Suc n)
  then have lt: "collapseIndex s < length cs" by simp
  show ?case
    using Suc.prems lt
    by (simp add: Suc.IH upt_add_Suc_eq take_Suc_drop del: upt_Suc)
qed

lemma expandGroupLoop_eq:
  "expandIndex s + n \<le> length es \<Longrightarrow>
   expandGroupLoop es n grp s =
     Some (grp @ [index s..<index s + n],
           s\<lparr>index := index s + n,
              expandIndex := expandIndex s + n,
              newCollapseReInds := newCollapseReInds s @ map (\<lambda>d. [d]) [index s..<index s + n],
              newExpandSizes := newExpandSizes s @ take n (drop (expandIndex s) es)\<rparr>)"
proof (induction n arbitrary: grp s)
  case 0
  then show ?case by simp
next
  case (Suc n)
  then have lt: "expandIndex s < length es" by simp
  show ?case
    using Suc.prems lt
    by (simp add: Suc.IH upt_add_Suc_eq take_Suc_drop del: upt_Suc)
qed


lemma reassociationLoop_positionwise:
  assumes "length expandReInds = idx + length rest"
      and "\<forall>(cg, eg) \<in> set (zip rest (drop idx expandReInds)). length cg = 1 \<or> length eg = 1"
      and "collapseIndex s + length (concat rest) \<le> length cs"
      and "expandIndex s + length (concat (drop idx expandReInds)) \<le> length es"
      and "positionwise (index s) (collapseIndex s) (expandIndex s) cs es
             (zip rest (drop idx expandReInds)) = (E, C, S)"
  shows "\<exists>s'. reassociationLoop cs es expandReInds idx rest s = Some s' \<and>
           newExpandReInds s' = newExpandReInds s @ E \<and>
           newCollapseReInds s' = newCollapseReInds s @ C \<and>
           newExpandSizes s' = newExpandSizes s @ S"
  using assms
proof (induction rest arbitrary: idx s E C S)
  case Nil
  then show ?case by simp
next
  case (Cons cg rest)
  from Cons.prems(1) have idx: "idx < length expandReInds" by simp
  define eg where "eg = expandReInds ! idx"
  have dr: "drop idx expandReInds = eg # drop (Suc idx) expandReInds"
    unfolding eg_def using idx by (simp add: Cons_nth_drop_Suc)
  have len': "length expandReInds = Suc idx + length rest"
    using Cons.prems(1) by simp
  have par': "\<forall>(cg, eg) \<in> set (zip rest (drop (Suc idx) expandReInds)).
      length cg = 1 \<or> length eg = 1"
    using Cons.prems(2) by (simp add: dr)
  have par0: "length cg = 1 \<or> length eg = 1"
    using Cons.prems(2) by (simp add: dr)
  have cb: "collapseIndex s + length cg + length (concat rest) \<le> length cs"
    using Cons.prems(3) by simp
  have eb: "expandIndex s + length eg + length (concat (drop (Suc idx) expandReInds)) \<le> length es"
    using Cons.prems(4) by (simp add: dr)
  obtain E' C' S' where P': "positionwise
      (index s + (if length cg = 1 then length eg else length cg))
      (collapseIndex s + length cg) (expandIndex s + length eg) cs es
      (zip rest (drop (Suc idx) expandReInds)) = (E', C', S')"
    using prod_cases3 by blast
  show ?case
  proof (cases "length cg = 1")
    case True
    define s1 where "s1 = s\<lparr>index := index s + length eg,
              expandIndex := expandIndex s + length eg,
              newCollapseReInds := newCollapseReInds s @ map (\<lambda>d. [d]) [index s..<index s + length eg],
              newExpandSizes := newExpandSizes s @ take (length eg) (drop (expandIndex s) es),
              newExpandReInds := newExpandReInds s @ [[index s..<index s + length eg]],
              collapseIndex := collapseIndex s + 1\<rparr>"
    have inner: "expandGroupLoop es (length eg) [] s =
        Some ([index s..<index s + length eg],
          s\<lparr>index := index s + length eg,
              expandIndex := expandIndex s + length eg,
              newCollapseReInds := newCollapseReInds s @ map (\<lambda>d. [d]) [index s..<index s + length eg],
              newExpandSizes := newExpandSizes s @ take (length eg) (drop (expandIndex s) es)\<rparr>)"
      using eb by (simp add: expandGroupLoop_eq)
    have step: "reassociationLoop cs es expandReInds idx (cg # rest) s =
        reassociationLoop cs es expandReInds (Suc idx) rest s1"
      using True idx inner by (simp add: eg_def [symmetric] s1_def)
    have P1: "positionwise (index s1) (collapseIndex s1) (expandIndex s1) cs es
        (zip rest (drop (Suc idx) expandReInds)) = (E', C', S')"
      using P' True by (simp add: s1_def)
    have cb1: "collapseIndex s1 + length (concat rest) \<le> length cs"
      using cb True by (simp add: s1_def)
    have eb1: "expandIndex s1 + length (concat (drop (Suc idx) expandReInds)) \<le> length es"
      using eb by (simp add: s1_def)
    from Cons.IH [OF len' par' cb1 eb1 P1]
    obtain s' where s': "reassociationLoop cs es expandReInds (Suc idx) rest s1 = Some s'"
      "newExpandReInds s' = newExpandReInds s1 @ E'"
      "newCollapseReInds s' = newCollapseReInds s1 @ C'"
      "newExpandSizes s' = newExpandSizes s1 @ S'"
      by blast
    have ECS: "E = [index s..<index s + length eg] # E'"
      "C = map (\<lambda>d. [d]) [index s..<index s + length eg] @ C'"
      "S = take (length eg) (drop (expandIndex s) es) @ S'"
      using Cons.prems(5) P' True by (simp_all add: dr)
    show ?thesis
      using step s' ECS by (simp add: s1_def)
  next
    case False
    with par0 have eg1: "length eg = 1" by simp
    define s1 where "s1 = s\<lparr>index := index s + length cg,
              collapseIndex := collapseIndex s + length cg,
              newExpandReInds := newExpandReInds s @ map (\<lambda>d. [d]) [index s..<index s + length cg],
              newExpandSizes := newExpandSizes s @ take (length cg) (drop (collapseIndex s) cs),
              newCollapseReInds := newCollapseReInds s @ [[index s..<index s + length cg]],
              expandIndex := expandIndex s + 1\<rparr>"
    have inner: "collapseGroupLoop cs (length cg) [] s =
        Some ([index s..<index s + length cg],
          s\<lparr>index := index s + length cg,
              collapseIndex := collapseIndex s + length cg,
              newExpandReInds := newExpandReInds s @ map (\<lambda>d. [d]) [index s..<index s + length cg],
              newExpandSizes := newExpandSizes s @ take (length cg) (drop (collapseIndex s) cs)\<rparr>)"
      using cb by (simp add: collapseGroupLoop_eq)
    have step: "reassociationLoop cs es expandReInds idx (cg # rest) s =
        reassociationLoop cs es expandReInds (Suc idx) rest s1"
      using False inner by (simp add: s1_def)
    have P1: "positionwise (index s1) (collapseIndex s1) (expandIndex s1) cs es
        (zip rest (drop (Suc idx) expandReInds)) = (E', C', S')"
      using P' False eg1 by (simp add: s1_def)
    have cb1: "collapseIndex s1 + length (concat rest) \<le> length cs"
      using cb by (simp add: s1_def)
    have eb1: "expandIndex s1 + length (concat (drop (Suc idx) expandReInds)) \<le> length es"
      using eb eg1 by (simp add: s1_def)
    from Cons.IH [OF len' par' cb1 eb1 P1]
    obtain s' where s': "reassociationLoop cs es expandReInds (Suc idx) rest s1 = Some s'"
      "newExpandReInds s' = newExpandReInds s1 @ E'"
      "newCollapseReInds s' = newCollapseReInds s1 @ C'"
      "newExpandSizes s' = newExpandSizes s1 @ S'"
      by blast
    have ECS: "E = map (\<lambda>d. [d]) [index s..<index s + length cg] @ E'"
      "C = [index s..<index s + length cg] # C'"
      "S = take (length cg) (drop (collapseIndex s) cs) @ S'"
      using Cons.prems(5) P' False by (simp_all add: dr)
    show ?thesis
      using step s' ECS by (simp add: s1_def)
  qed
qed

lemma positionwise_partition:
  assumes "c + length (concat (map fst ps)) \<le> length cs"
      and "e + length (concat (map snd ps)) \<le> length es"
      and "positionwise i c e cs es ps = (E, C, S)"
  shows "concat E = [i..<i + length S] \<and> concat C = [i..<i + length S]"
  using assms
proof (induction ps arbitrary: i c e E C S)
  case Nil
  then show ?case by simp
next
  case (Cons p ps)
  obtain cg eg where p: "p = (cg, eg)" by (cases p)
  obtain E' C' S' where P': "positionwise
      (i + (if length cg = 1 then length eg else length cg))
      (c + length cg) (e + length eg) cs es ps = (E', C', S')"
    using prod_cases3 by blast
  have cb: "c + length cg + length (concat (map fst ps)) \<le> length cs"
    using Cons.prems(1) by (simp add: p)
  have eb: "e + length eg + length (concat (map snd ps)) \<le> length es"
    using Cons.prems(2) by (simp add: p)
  from Cons.IH [OF cb eb P']
  have IH: "concat E' = [i + (if length cg = 1 then length eg else length cg)..<
                i + (if length cg = 1 then length eg else length cg) + length S']"
       "concat C' = [i + (if length cg = 1 then length eg else length cg)..<
                i + (if length cg = 1 then length eg else length cg) + length S']"
    by simp_all
  have app: "[i..<i + a] @ [i + a..<i + a + b] = [i..<i + (a + b)]" for a b
    using upt_add_eq_append [of i "i + a" b] by (simp add: add.assoc)
  show ?case
  proof (cases "length cg = 1")
    case True
    have lt: "min (length es - e) (length eg) = length eg"
      using eb by simp
    have ECS: "E = [i..<i + length eg] # E'"
      "C = map (\<lambda>d. [d]) [i..<i + length eg] @ C'"
      "S = take (length eg) (drop e es) @ S'"
      using Cons.prems(3) P' True by (simp_all add: p)
    show ?thesis
      using IH True by (simp add: ECS lt app del: upt_Suc)
  next
    case False
    have lt: "min (length cs - c) (length cg) = length cg"
      using cb by simp
    have ECS: "E = map (\<lambda>d. [d]) [i..<i + length cg] @ E'"
      "C = [i..<i + length cg] # C'"
      "S = take (length cg) (drop c cs) @ S'"
      using Cons.prems(3) P' False by (simp_all add: p)
    show ?thesis
      using IH False by (simp add: ECS lt app del: upt_Suc)
  qed
qed

lemma positionwise_nonempty:
  assumes "\<forall>(cg, eg) \<in> set ps. cg \<noteq> [] \<and> eg \<noteq> []"
      and "positionwise i c e cs es ps = (E, C, S)"
  shows "[] \<notin> set E \<and> [] \<notin> set C"
  using assms
proof (induction ps arbitrary: i c e E C S)
  case Nil
  then show ?case by simp
next
  case (Cons p ps)
  obtain cg eg where p: "p = (cg, eg)" by (cases p)
  obtain E' C' S' where P': "positionwise
      (i + (if length cg = 1 then length eg else length cg))
      (c + length cg) (e + length eg) cs es ps = (E', C', S')"
    using prod_cases3 by blast
  have ne: "cg \<noteq> []" "eg \<noteq> []" "\<forall>(cg, eg) \<in> set ps. cg \<noteq> [] \<and> eg \<noteq> []"
    using Cons.prems(1) by (simp_all add: p)
  from Cons.IH [OF ne(3) P'] have IH: "[] \<notin> set E'" "[] \<notin> set C'" by simp_all
  show ?case
  proof (cases "length cg = 1")
    case True
    have ECS: "E = [i..<i + length eg] # E'"
      "C = map (\<lambda>d. [d]) [i..<i + length eg] @ C'"
      using Cons.prems(2) P' True by (simp_all add: p)
    have "[i..<i + length eg] \<noteq> []"
      using ne(2) by simp
    then have up: "[] \<noteq> [i..<i + length eg]"
      by (rule not_sym)
    show ?thesis using IH ne up by (auto simp: ECS)
  next
    case False
    have ECS: "E = map (\<lambda>d. [d]) [i..<i + length cg] @ E'"
      "C = [i..<i + length cg] # C'"
      using Cons.prems(2) P' False by (simp_all add: p)
    have "[i..<i + length cg] \<noteq> []"
      using ne(1) by simp
    then have up: "[] \<noteq> [i..<i + length cg]"
      by (rule not_sym)
    show ?thesis using IH ne up by (auto simp: ECS)
  qed
qed



lemma getMixedSizes_static:
  "map staticOf (snd (getMixedSizes g v i shp)) = shp"
proof (induction shp arbitrary: g i)
  case Nil
  show ?case by simp
next
  case (Cons d ds)
  show ?case
    using Cons.IH [of "g @ [Some (DimOp v i)]" "Suc i"] Cons.IH [of g "Suc i"]
    by (auto simp: create_def split: prod.splits)
qed

lemma getMixedSizes_length:
  "length (snd (getMixedSizes g v i shp)) = length shp"
  using getMixedSizes_static [of g v i shp] by (metis length_map)

lemma zip_all_nth:
  assumes "length xs = length ys"
  shows "(\<forall>(x, y) \<in> set (zip xs ys). P x y) \<longleftrightarrow> (\<forall>j < length xs. P (xs ! j) (ys ! j))"
  using assms by (auto simp: set_zip)

lemma list_ex_zip_swap:
  assumes "length expandReInds = length collapseReInds"
  shows "list_ex (\<lambda>(expandReassociation, collapseReassociation).
             length collapseReassociation \<noteq> 1 \<and> length expandReassociation \<noteq> 1)
           (zip expandReInds collapseReInds) \<longleftrightarrow>
         \<not> (\<forall>j < length collapseReInds.
               length (collapseReInds ! j) = 1 \<or> length (expandReInds ! j) = 1)"
  using assms by (auto simp: list_ex_iff set_zip)

lemma BubbleUpExpandThroughParallelCollapse_on_collapse:
  assumes "getDefiningOp g opId = Some (ExpandShapeOp src expandReInds expandSizes resultType)"
      and "getDefiningOp g src = Some (CollapseShapeOp x collapseReInds t)"
      and "getType g x = Some xType"
      and "length expandReInds = length collapseReInds"
  shows "BubbleUpExpandThroughParallelCollapse g opId =
     (if \<not> (\<forall>j < length collapseReInds.
               length (collapseReInds ! j) = 1 \<or> length (expandReInds ! j) = 1)
      then Some (failure None, g)
      else (case reassociationLoop (snd (getMixedSizes g x 0 (getShape xType))) expandSizes
                   expandReInds 0 collapseReInds initialState of
              None \<Rightarrow> None
            | Some s \<Rightarrow>
                Some (success,
                  replaceOp
                    (fst (getMixedSizes g x 0 (getShape xType)) @
                     [Some (ExpandShapeOp x (newExpandReInds s) (newExpandSizes s)
                        (RankedTensorType (map staticOf (newExpandSizes s))
                           (getElementType resultType))),
                      Some (CollapseShapeOp
                        (length (fst (getMixedSizes g x 0 (getShape xType))))
                        (newCollapseReInds s)
                        (inferCollapsedType
                           (RankedTensorType (map staticOf (newExpandSizes s))
                              (getElementType resultType))
                           (newCollapseReInds s)))])
                    opId (Suc (length (fst (getMixedSizes g x 0 (getShape xType))))))))"
  using assms list_ex_zip_swap [OF assms(4)]
  by (simp add: BubbleUpExpandThroughParallelCollapse_def Let_def create_def
        replaceOpWithNewOp_def split: prod.splits option.splits)



lemma reassociationLoop_from_start:
  assumes "length expandReInds = length collapseReInds"
      and "\<forall>j < length collapseReInds.
             length (collapseReInds ! j) = 1 \<or> length (expandReInds ! j) = 1"
      and "length (concat collapseReInds) \<le> length cs"
      and "length (concat expandReInds) \<le> length es"
      and "positionwise 0 0 0 cs es (zip collapseReInds expandReInds) = (E, C, S)"
  shows "\<exists>s. reassociationLoop cs es expandReInds 0 collapseReInds initialState = Some s \<and>
           newExpandReInds s = E \<and> newCollapseReInds s = C \<and> newExpandSizes s = S"
proof -
  have par: "\<forall>(cg, eg) \<in> set (zip collapseReInds (drop 0 expandReInds)).
      length cg = 1 \<or> length eg = 1"
    using assms(2) zip_all_nth [OF assms(1) [symmetric],
      of "\<lambda>cg eg. length cg = 1 \<or> length eg = 1"]
    by simp
  have "\<exists>s. reassociationLoop cs es expandReInds 0 collapseReInds initialState = Some s \<and>
           newExpandReInds s = newExpandReInds initialState @ E \<and>
           newCollapseReInds s = newCollapseReInds initialState @ C \<and>
           newExpandSizes s = newExpandSizes initialState @ S"
    using assms(1,3,4,5) par
    by (intro reassociationLoop_positionwise) (simp_all add: initialState_def)
  then show ?thesis
    by (simp add: initialState_def)
qed

section \<open>When the bubble-up pattern matches\<close>

text \<open>
  C5: on an expansion fed by a collapse, with as many groups in the one reassociation as
  in the other, the pattern matches if and only if the reshapes are parallel: at every
  position \<open>j\<close> the collapse's group or the expand's group has size exactly 1. It
  reports a plain match failure, leaving the program unchanged, exactly when some
  position has both sizes different from 1, in particular whenever both are greater
  than 1.
\<close>

theorem BubbleUpExpandThroughParallelCollapse_match_iff_parallel:
  assumes "getDefiningOp g opId = Some (ExpandShapeOp src expandReInds expandSizes resultType)"
      and "getDefiningOp g src = Some (CollapseShapeOp x collapseReInds t)"
      and "getType g x = Some xType"
      and "length expandReInds = length collapseReInds"
      and "length (concat collapseReInds) \<le> length (getShape xType)"
      and "length (concat expandReInds) \<le> length expandSizes"
  shows "((\<exists>g'. BubbleUpExpandThroughParallelCollapse g opId = Some (success, g')) \<longleftrightarrow>
            (\<forall>j < length collapseReInds.
               length (collapseReInds ! j) = 1 \<or> length (expandReInds ! j) = 1)) \<and>
         (BubbleUpExpandThroughParallelCollapse g opId = Some (failure None, g) \<longleftrightarrow>
            (\<exists>j < length collapseReInds.
               length (collapseReInds ! j) \<noteq> 1 \<and> length (expandReInds ! j) \<noteq> 1)) \<and>
         ((\<exists>j < length collapseReInds.
             1 < length (collapseReInds ! j) \<and> 1 < length (expandReInds ! j)) \<longrightarrow>
            BubbleUpExpandThroughParallelCollapse g opId = Some (failure None, g))"
proof (cases "\<forall>j < length collapseReInds.
               length (collapseReInds ! j) = 1 \<or> length (expandReInds ! j) = 1")
  case True
  obtain E C S where P: "positionwise 0 0 0 (snd (getMixedSizes g x 0 (getShape xType)))
      expandSizes (zip collapseReInds expandReInds) = (E, C, S)"
    using prod_cases3 by blast
  have cb: "length (concat collapseReInds)
      \<le> length (snd (getMixedSizes g x 0 (getShape xType)))"
    using assms(5) by (simp add: getMixedSizes_length)
  from reassociationLoop_from_start [OF assms(4) True cb assms(6) P]
  obtain s where s: "reassociationLoop (snd (getMixedSizes g x 0 (getShape xType)))
      expandSizes expandReInds 0 collapseReInds initialState = Some s"
    by blast
  have "\<exists>g'. BubbleUpExpandThroughParallelCollapse g opId = Some (success, g')"
    using BubbleUpExpandThroughParallelCollapse_on_collapse [OF assms(1-4)] True s by simp
  moreover have "\<not> (\<exists>j < length collapseReInds.
      length (collapseReInds ! j) \<noteq> 1 \<and> length (expandReInds ! j) \<noteq> 1)"
    using True by blast
  moreover have "\<not> (\<exists>j < length collapseReInds.
      1 < length (collapseReInds ! j) \<and> 1 < length (expandReInds ! j))"
    using True by fastforce
  ultimately show ?thesis
    using True by auto
next
  case False
  then have f: "BubbleUpExpandThroughParallelCollapse g opId = Some (failure None, g)"
    using BubbleUpExpandThroughParallelCollapse_on_collapse [OF assms(1-4)] by simp
  have "\<exists>j < length collapseReInds.
      length (collapseReInds ! j) \<noteq> 1 \<and> length (expandReInds ! j) \<noteq> 1"
    using False by blast
  then show ?thesis
    using False f by simp
qed

theorem BubbleUpExpandThroughParallelCollapse_match_iff_parallel_witness:
  "(\<exists>g'. BubbleUpExpandThroughParallelCollapse expandOfCollapse 3 = Some (success, g')) \<and>
   BubbleUpExpandThroughParallelCollapse expandOfCollapseNotParallel 2 =
     Some (failure None, expandOfCollapseNotParallel)"
proof -
  have a1: "getDefiningOp expandOfCollapse 3 =
      Some (ExpandShapeOp 2 [[0], [1, 2]] [Val 1, Attr 3, Attr 4]
              (RankedTensorType [kDynamic, 3, 4] F32))"
    by (simp add: expandOfCollapse_def getDefiningOp_def)
  have a2: "getDefiningOp expandOfCollapse 2 =
      Some (CollapseShapeOp 0 [[0, 1], [2]] (RankedTensorType [kDynamic, 12] F32))"
    by (simp add: expandOfCollapse_def getDefiningOp_def)
  have a3: "getType expandOfCollapse 0 = Some (RankedTensorType [2, kDynamic, 12] F32)"
    by (simp add: expandOfCollapse_def getType_def getDefiningOp_def)
  have a4: "length [[0], [1, 2 :: nat]] = length [[0, 1], [2 :: nat]]"
    by simp
  have a5: "length (concat [[0, 1], [2 :: nat]])
      \<le> length (getShape (RankedTensorType [2, kDynamic, 12] F32))"
    by simp
  have a6: "length (concat [[0], [1, 2 :: nat]]) \<le> length [Val 1, Attr 3, Attr 4]"
    by simp
  have a7: "\<forall>j < length [[0, 1], [2 :: nat]].
      length ([[0, 1], [2 :: nat]] ! j) = 1 \<or> length ([[0], [1, 2 :: nat]] ! j) = 1"
    by (simp add: All_less_Suc)
  have b1: "getDefiningOp expandOfCollapseNotParallel 2 =
      Some (ExpandShapeOp 1 [[0, 1]] [Attr 3, Attr 4] (RankedTensorType [3, 4] F32))"
    by (simp add: expandOfCollapseNotParallel_def getDefiningOp_def)
  have b2: "getDefiningOp expandOfCollapseNotParallel 1 =
      Some (CollapseShapeOp 0 [[0, 1]] (RankedTensorType [12] F32))"
    by (simp add: expandOfCollapseNotParallel_def getDefiningOp_def)
  have b3: "getType expandOfCollapseNotParallel 0 = Some (RankedTensorType [2, 6] F32)"
    by (simp add: expandOfCollapseNotParallel_def getType_def getDefiningOp_def)
  have b4: "length [[0, 1 :: nat]] = length [[0, 1 :: nat]]"
    by simp
  have b5: "length (concat [[0, 1 :: nat]]) \<le> length (getShape (RankedTensorType [2, 6] F32))"
    by simp
  have b6: "length (concat [[0, 1 :: nat]]) \<le> length [Attr 3, Attr 4]"
    by simp
  have b7: "\<exists>j < length [[0, 1 :: nat]].
      1 < length ([[0, 1 :: nat]] ! j) \<and> 1 < length ([[0, 1 :: nat]] ! j)"
    by simp
  show ?thesis
    using BubbleUpExpandThroughParallelCollapse_match_iff_parallel [OF a1 a2 a3 a4 a5 a6] a7
      BubbleUpExpandThroughParallelCollapse_match_iff_parallel [OF b1 b2 b3 b4 b5 b6] b7
    by blast
qed


section \<open>The reassociations built by the bubble-up pattern\<close>

text \<open>
  C6: on a match, the new expansion and the new collapse carry exactly the reassociations
  and intermediate sizes that the position-by-position description \<open>positionwise\<close>
  yields, going through the positions from left to right and numbering the intermediate
  dimensions consecutively from 0. The sizes of passed-through dimensions are those of
  the source's own shape. Both new reassociations are partitions of the index range of
  the intermediate shape into non-empty, contiguous groups in increasing order.
\<close>

theorem BubbleUpExpandThroughParallelCollapse_reassociations:
  assumes "getDefiningOp g opId = Some (ExpandShapeOp src expandReInds expandSizes resultType)"
      and "getDefiningOp g src = Some (CollapseShapeOp x collapseReInds t)"
      and "getType g x = Some xType"
      and "length expandReInds = length collapseReInds"
      and "length (concat collapseReInds) \<le> length (getShape xType)"
      and "length (concat expandReInds) \<le> length expandSizes"
      and "\<forall>j < length collapseReInds.
             length (collapseReInds ! j) = 1 \<or> length (expandReInds ! j) = 1"
      and "[] \<notin> set collapseReInds"
      and "[] \<notin> set expandReInds"
      and "getMixedSizes g x 0 (getShape xType) = (g1, collapseSizes)"
      and "positionwise 0 0 0 collapseSizes expandSizes (zip collapseReInds expandReInds)
             = (E, C, S)"
  shows "BubbleUpExpandThroughParallelCollapse g opId =
           Some (success,
             replaceOp
               (g1 @ [Some (ExpandShapeOp x E S
                              (RankedTensorType (map staticOf S) (getElementType resultType))),
                      Some (CollapseShapeOp (length g1) C
                              (inferCollapsedType
                                 (RankedTensorType (map staticOf S) (getElementType resultType))
                                 C))])
               opId (Suc (length g1))) \<and>
         map staticOf collapseSizes = getShape xType \<and>
         concat E = [0..<length S] \<and> concat C = [0..<length S] \<and>
         [] \<notin> set E \<and> [] \<notin> set C"
proof -
  have cs: "snd (getMixedSizes g x 0 (getShape xType)) = collapseSizes"
       "fst (getMixedSizes g x 0 (getShape xType)) = g1"
    using assms(10) by simp_all
  have st: "map staticOf collapseSizes = getShape xType"
    using getMixedSizes_static [of g x 0 "getShape xType"] by (simp add: cs)
  have cb: "length (concat collapseReInds) \<le> length collapseSizes"
    using assms(5) getMixedSizes_length [of g x 0 "getShape xType"] by (simp add: cs)
  from reassociationLoop_from_start [OF assms(4) assms(7) cb assms(6) assms(11)]
  obtain s where s: "reassociationLoop collapseSizes expandSizes expandReInds 0
        collapseReInds initialState = Some s"
      "newExpandReInds s = E" "newCollapseReInds s = C" "newExpandSizes s = S"
    by blast
  have run: "BubbleUpExpandThroughParallelCollapse g opId =
           Some (success,
             replaceOp
               (g1 @ [Some (ExpandShapeOp x E S
                              (RankedTensorType (map staticOf S) (getElementType resultType))),
                      Some (CollapseShapeOp (length g1) C
                              (inferCollapsedType
                                 (RankedTensorType (map staticOf S) (getElementType resultType))
                                 C))])
               opId (Suc (length g1)))"
    using BubbleUpExpandThroughParallelCollapse_on_collapse [OF assms(1-4)] assms(7) s by (simp add: cs)
  have fst_zip: "concat (map fst (zip collapseReInds expandReInds)) = concat collapseReInds"
    using assms(4) by simp
  have snd_zip: "concat (map snd (zip collapseReInds expandReInds)) = concat expandReInds"
    using assms(4) by simp
  have part: "concat E = [0..<0 + length S] \<and> concat C = [0..<0 + length S]"
    using cb assms(6) assms(11)
    by (intro positionwise_partition [where c = 0 and e = 0])
       (simp_all only: fst_zip snd_zip add_0)
  have "\<forall>(cg, eg) \<in> set (zip collapseReInds expandReInds). cg \<noteq> [] \<and> eg \<noteq> []"
    using assms(8,9) by (auto dest: set_zip_leftD set_zip_rightD)
  then have ne: "[] \<notin> set E \<and> [] \<notin> set C"
    using assms(11) by (rule positionwise_nonempty)
  show ?thesis
    using run st part ne by simp
qed


theorem BubbleUpExpandThroughParallelCollapse_reassociations_witness:
  "BubbleUpExpandThroughParallelCollapse expandOfCollapse 3 =
     Some (success,
       [Some (OtherOp [] (Some (RankedTensorType [2, kDynamic, 12] F32))),
        Some (OtherOp [] None),
        Some (CollapseShapeOp 0 [[0, 1], [2]] (RankedTensorType [kDynamic, 12] F32)),
        None,
        Some (OtherOp [7] None),
        Some (DimOp 0 1),
        Some (ExpandShapeOp 0 [[0], [1], [2, 3]] [Attr 2, Val 5, Attr 3, Attr 4]
                (RankedTensorType [2, kDynamic, 3, 4] F32)),
        Some (CollapseShapeOp 6 [[0, 1], [2], [3]]
                (RankedTensorType [kDynamic, 3, 4] F32))]) \<and>
   concat [[0], [1], [2, 3 :: nat]] = [0..<4] \<and>
   concat [[0, 1], [2], [3 :: nat]] = [0..<4]"
proof -
  have a1: "getDefiningOp expandOfCollapse 3 =
      Some (ExpandShapeOp 2 [[0], [1, 2]] [Val 1, Attr 3, Attr 4]
              (RankedTensorType [kDynamic, 3, 4] F32))"
    by (simp add: expandOfCollapse_def getDefiningOp_def)
  have a2: "getDefiningOp expandOfCollapse 2 =
      Some (CollapseShapeOp 0 [[0, 1], [2]] (RankedTensorType [kDynamic, 12] F32))"
    by (simp add: expandOfCollapse_def getDefiningOp_def)
  have a3: "getType expandOfCollapse 0 = Some (RankedTensorType [2, kDynamic, 12] F32)"
    by (simp add: expandOfCollapse_def getType_def getDefiningOp_def)
  have a4: "length [[0], [1, 2 :: nat]] = length [[0, 1], [2 :: nat]]"
    by simp
  have a5: "length (concat [[0, 1], [2 :: nat]])
      \<le> length (getShape (RankedTensorType [2, kDynamic, 12] F32))"
    by simp
  have a6: "length (concat [[0], [1, 2 :: nat]]) \<le> length [Val 1, Attr 3, Attr 4]"
    by simp
  have a7: "\<forall>j < length [[0, 1], [2 :: nat]].
      length ([[0, 1], [2 :: nat]] ! j) = 1 \<or> length ([[0], [1, 2 :: nat]] ! j) = 1"
    by (simp add: All_less_Suc)
  have a8: "[] \<notin> set [[0, 1], [2 :: nat]]" by simp
  have a9: "[] \<notin> set [[0], [1, 2 :: nat]]" by simp
  have a10: "getMixedSizes expandOfCollapse 0 0 (getShape (RankedTensorType [2, kDynamic, 12] F32))
      = (expandOfCollapse @ [Some (DimOp 0 1)], [Attr 2, Val 5, Attr 12])"
    by (simp add: create_def kDynamic_def expandOfCollapse_def)
  have a11: "positionwise 0 0 0 [Attr 2, Val 5, Attr 12] [Val 1, Attr 3, Attr 4]
      (zip [[0, 1], [2]] [[0], [1, 2]]) =
      ([[0], [1], [2, 3]], [[0, 1], [2], [3]], [Attr 2, Val 5, Attr 3, Attr 4])"
    by (simp add: upt_rec)
  have r: "replaceOp
     (expandOfCollapse @ [Some (DimOp 0 1)] @
      [Some (ExpandShapeOp 0 [[0], [1], [2, 3]] [Attr 2, Val 5, Attr 3, Attr 4]
          (RankedTensorType (map staticOf [Attr 2, Val 5, Attr 3, Attr 4]) (getElementType (RankedTensorType [kDynamic, 3, 4] F32)))),
       Some (CollapseShapeOp (length (expandOfCollapse @ [Some (DimOp 0 1)])) [[0, 1], [2], [3]]
          (inferCollapsedType
            (RankedTensorType (map staticOf [Attr 2, Val 5, Attr 3, Attr 4]) (getElementType (RankedTensorType [kDynamic, 3, 4] F32)))
            [[0, 1], [2], [3]]))])
     3 (Suc (length (expandOfCollapse @ [Some (DimOp 0 1)]))) =
       [Some (OtherOp [] (Some (RankedTensorType [2, kDynamic, 12] F32))),
        Some (OtherOp [] None),
        Some (CollapseShapeOp 0 [[0, 1], [2]] (RankedTensorType [kDynamic, 12] F32)),
        None,
        Some (OtherOp [7] None),
        Some (DimOp 0 1),
        Some (ExpandShapeOp 0 [[0], [1], [2, 3]] [Attr 2, Val 5, Attr 3, Attr 4]
                (RankedTensorType [2, kDynamic, 3, 4] F32)),
        Some (CollapseShapeOp 6 [[0, 1], [2], [3]]
                (RankedTensorType [kDynamic, 3, 4] F32))]"
    by (simp add: replaceOp_def eraseOp_def replaceAllUsesWith_def expandOfCollapse_def
          inferCollapsedType_def)
  have u: "concat [[0], [1], [2, 3 :: nat]] = [0..<4]" "concat [[0, 1], [2], [3 :: nat]] = [0..<4]"
    by (simp_all add: upt_rec)
  show ?thesis
    using BubbleUpExpandThroughParallelCollapse_reassociations
            [OF a1 a2 a3 a4 a5 a6 a7 a8 a9 a10 a11] r u
    by simp
qed


section \<open>What a successful fold leaves behind\<close>




lemma FoldExpandOfRankReducingExtract_successD:
  assumes "FoldExpandOfRankReducingExtract g opId = Some (success, g')"
  shows "\<exists>src re out resultType x offs szs strs t.
           getDefiningOp g opId = Some (ExpandShapeOp src re out resultType) \<and>
           getDefiningOp g src = Some (ExtractSliceOp x offs szs strs t) \<and>
           g' = replaceOp (g @ [Some (ExtractSliceOp x offs szs strs resultType)]) opId (length g)"
  using assms
  by (auto simp: FoldExpandOfRankReducingExtract_def buildExtractSliceOp_def Let_def
        replaceOpWithNewOp_def create_def
        split: option.splits Operation.splits if_splits)

lemma FoldUnPaddingCollapseIntoExtract_successD:
  assumes "FoldUnPaddingCollapseIntoExtract g opId = Some (success, g')"
  shows "\<exists>src re resultType x offs szs strs t.
           getDefiningOp g opId = Some (CollapseShapeOp src re resultType) \<and>
           getDefiningOp g src = Some (ExtractSliceOp x offs szs strs t) \<and>
           g' = replaceOp (g @ [Some (ExtractSliceOp x offs szs strs resultType)]) opId (length g)"
  using assms
  by (auto simp: FoldUnPaddingCollapseIntoExtract_def create_def
        split: option.splits Operation.splits if_splits)

lemma FoldInsertOfRankReducingInsert_successD:
  assumes "FoldInsertOfRankReducingInsert k g opId = Some (success, g')"
  shows "\<exists>source dest offs szs strs rt x re t.
           getDefiningOp g opId = Some (InsertSliceOp k source dest offs szs strs rt) \<and>
           getDefiningOp g source = Some (CollapseShapeOp x re t) \<and>
           g' = replaceOp (g @ [Some (buildInsertSliceOp g k x dest offs szs strs)]) opId (length g)"
  using assms
  by (auto simp: FoldInsertOfRankReducingInsert_def Let_def
        replaceOpWithNewOp_def create_def
        split: option.splits Operation.splits if_splits)

lemma FoldPaddingExpandIntoInsert_successD:
  assumes "FoldPaddingExpandIntoInsert k g opId = Some (success, g')"
  shows "\<exists>source dest offs szs strs rt x re out t.
           getDefiningOp g opId = Some (InsertSliceOp k source dest offs szs strs rt) \<and>
           getDefiningOp g source = Some (ExpandShapeOp x re out t) \<and>
           g' = g[opId := Some (InsertSliceOp k x dest offs szs strs rt)]"
  using assms
  by (auto simp: FoldPaddingExpandIntoInsert_def modifyOpInPlace_def
        split: option.splits Operation.splits if_splits)


lemma getDefiningOp_replaceOp:
  "getDefiningOp (replaceOp G opId n) v =
     (if v = opId then None
      else map_option (mapOperands (\<lambda>u. if u = opId then n else u)) (getDefiningOp G v))"
  by (simp add: replaceOp_def eraseOp_def replaceAllUsesWith_def getDefiningOp_def)

lemma getDefiningOp_append:
  "getDefiningOp (g @ [Some op]) v =
     (if v = length g then Some op else getDefiningOp g v)"
  by (simp add: getDefiningOp_def nth_append)

lemma mapOperands_CollapseShapeOpD:
  "mapOperands f op = CollapseShapeOp y re t \<Longrightarrow> \<exists>y'. op = CollapseShapeOp y' re t"
  by (cases op) auto

lemma mapOperands_ExpandShapeOpD:
  "mapOperands f op = ExpandShapeOp y re out t \<Longrightarrow> \<exists>y' out'. op = ExpandShapeOp y' re out' t"
  by (cases op) auto

lemma FoldInsertOfRankReducingInsert_other_producer:
  assumes "getDefiningOp g opId = Some (InsertSliceOp k source dest offs szs strs rt)"
      and "\<forall>y re t. getDefiningOp g source \<noteq> Some (CollapseShapeOp y re t)"
  shows "FoldInsertOfRankReducingInsert k g opId = Some (failure None, g)"
  using assms
  by (simp add: FoldInsertOfRankReducingInsert_def split: option.splits Operation.splits)

lemma FoldPaddingExpandIntoInsert_other_producer:
  assumes "getDefiningOp g opId = Some (InsertSliceOp k source dest offs szs strs rt)"
      and "\<forall>y re out t. getDefiningOp g source \<noteq> Some (ExpandShapeOp y re out t)"
  shows "FoldPaddingExpandIntoInsert k g opId = Some (failure None, g)"
  using assms
  by (simp add: FoldPaddingExpandIntoInsert_def split: option.splits Operation.splits)

section \<open>Result types across a rewrite\<close>

text \<open>
  The shape that the new collapse infers from the intermediate shape is the output shape
  of the original expansion, whenever the two original reassociations describe the same
  intermediate type and the expand's reassociation covers its output shape.
\<close>


lemma collapsedShape_singletons:
  "length ys = length ds \<Longrightarrow>
   collapsedShape (ys @ zs) (map (\<lambda>d. [d]) ds @ C) = ys @ collapsedShape zs C"
proof (induction ds arbitrary: ys)
  case Nil
  then show ?case by simp
next
  case (Cons d ds)
  then obtain y ys' where ys: "ys = y # ys'" "length ys' = length ds"
    by (cases ys) auto
  show ?case
    using Cons.IH [OF ys(2)] by (simp add: ys)
qed

lemma collapsedShape_group:
  "length ys = length grp \<Longrightarrow>
   collapsedShape (ys @ zs) (grp # C) =
     (if kDynamic \<in> set ys then kDynamic else prod_list ys) # collapsedShape zs C"
  by simp

lemma take_drop_append: "take k (drop e xs) @ drop (e + k) xs = drop e xs"
  by (metis add.commute append_take_drop_id drop_drop)

lemma positionwise_collapsedShape:
  assumes "\<forall>(cg, eg) \<in> set ps. length cg = 1 \<or> length eg = 1"
      and "c + length (concat (map fst ps)) \<le> length cs"
      and "e + length (concat (map snd ps)) = length es"
      and "collapsedShape (drop c (map staticOf cs)) (map fst ps) =
           collapsedShape (drop e (map staticOf es)) (map snd ps)"
      and "positionwise i c e cs es ps = (E, C, S)"
  shows "collapsedShape (map staticOf S) C = drop e (map staticOf es)"
  using assms
proof (induction ps arbitrary: i c e E C S)
  case Nil
  then show ?case by simp
next
  case (Cons p ps)
  obtain cg eg where p: "p = (cg, eg)" by (cases p)
  obtain E' C' S' where P': "positionwise
      (i + (if length cg = 1 then length eg else length cg))
      (c + length cg) (e + length eg) cs es ps = (E', C', S')"
    using prod_cases3 by blast
  have par: "\<forall>(cg, eg) \<in> set ps. length cg = 1 \<or> length eg = 1"
       "length cg = 1 \<or> length eg = 1"
    using Cons.prems(1) by (simp_all add: p)
  have cb: "c + length cg + length (concat (map fst ps)) \<le> length cs"
    using Cons.prems(2) by (simp add: p)
  have eb: "e + length eg + length (concat (map snd ps)) = length es"
    using Cons.prems(3) by (simp add: p)
  have agree: "(if kDynamic \<in> set (take (length cg) (drop c (map staticOf cs))) then kDynamic
                else prod_list (take (length cg) (drop c (map staticOf cs)))) =
               (if kDynamic \<in> set (take (length eg) (drop e (map staticOf es))) then kDynamic
                else prod_list (take (length eg) (drop e (map staticOf es))))"
       "collapsedShape (drop (c + length cg) (map staticOf cs)) (map fst ps) =
        collapsedShape (drop (e + length eg) (map staticOf es)) (map snd ps)"
    using Cons.prems(4) by (simp_all add: p add.commute)
  from Cons.IH [OF par(1) cb eb agree(2) P']
  have IH: "collapsedShape (map staticOf S') C' = drop (e + length eg) (map staticOf es)" .
  show ?case
  proof (cases "length cg = 1")
    case True
    have ECS: "C = map (\<lambda>d. [d]) [i..<i + length eg] @ C'"
      "S = take (length eg) (drop e es) @ S'"
      using Cons.prems(5) P' True by (simp_all add: p)
    have len: "length (map staticOf (take (length eg) (drop e es))) = length [i..<i + length eg]"
      using eb by simp
    have "collapsedShape (map staticOf S) C =
        map staticOf (take (length eg) (drop e es)) @ collapsedShape (map staticOf S') C'"
      unfolding ECS map_append by (rule collapsedShape_singletons [OF len])
    also have "\<dots> = take (length eg) (drop e (map staticOf es)) @
        drop (e + length eg) (map staticOf es)"
      by (simp add: IH take_map drop_map)
    also have "\<dots> = drop e (map staticOf es)"
      by (rule take_drop_append)
    finally show ?thesis .
  next
    case False
    with par(2) have eg1: "length eg = 1" by simp
    have ECS: "C = [i..<i + length cg] # C'"
      "S = take (length cg) (drop c cs) @ S'"
      using Cons.prems(5) P' False by (simp_all add: p)
    have len: "length (map staticOf (take (length cg) (drop c cs))) = length [i..<i + length cg]"
      using cb by simp
    have elt: "e < length es"
      using eb eg1 by simp
    then have single: "take (length eg) (drop e (map staticOf es)) = [map staticOf es ! e]"
      using eg1 by (simp add: take_Suc_conv_app_nth drop_map)
    have A: "take (length cg) (drop c (map staticOf cs)) =
        map staticOf (take (length cg) (drop c cs))"
      by (simp add: take_map drop_map)
    have head: "(if kDynamic \<in> set (map staticOf (take (length cg) (drop c cs))) then kDynamic
                else prod_list (map staticOf (take (length cg) (drop c cs)))) =
               map staticOf es ! e"
      using agree(1) unfolding single A by simp
    have tl: "collapsedShape (map staticOf S') C' = drop (Suc e) (map staticOf es)"
      using IH eg1 by simp
    have "collapsedShape (map staticOf S) C =
        (if kDynamic \<in> set (map staticOf (take (length cg) (drop c cs))) then kDynamic
         else prod_list (map staticOf (take (length cg) (drop c cs))))
        # collapsedShape (map staticOf S') C'"
      unfolding ECS map_append by (rule collapsedShape_group [OF len])
    also have "\<dots> = map staticOf es ! e # drop (Suc e) (map staticOf es)"
      unfolding head tl ..
    also have "\<dots> = drop e (map staticOf es)"
      using elt Cons_nth_drop_Suc [of e "map staticOf es"] by simp
    finally show ?thesis .
  qed
qed


text \<open>
  On a match of a folding pattern the value that takes the place of the root has the type
  of the root's result; for the insert patterns the root is taken to be typed like its
  destination, as its builder types it.
\<close>


lemma resultTypeOf_mapOperands: "resultTypeOf (mapOperands f op) = resultTypeOf op"
  by (cases op) simp_all

lemma getType_replaceOp:
  "getType (replaceOp G opId n) v = (if v = opId then None else getType G v)"
  by (simp add: getType_def getDefiningOp_replaceOp resultTypeOf_mapOperands
        split: option.splits)

lemma getType_append:
  "getType (g @ [Some op]) v = (if v = length g then resultTypeOf op else getType g v)"
  by (simp add: getType_def getDefiningOp_append)

lemma FoldExpandOfRankReducingExtract_type:
  assumes "FoldExpandOfRankReducingExtract g opId = Some (success, g')"
  shows "getType g' (length g) = getType g opId"
proof -
  from FoldExpandOfRankReducingExtract_successD [OF assms]
  obtain src re out resultType x offs szs strs t where
    root: "getDefiningOp g opId = Some (ExpandShapeOp src re out resultType)" and
    g': "g' = replaceOp (g @ [Some (ExtractSliceOp x offs szs strs resultType)]) opId (length g)"
    by blast
  from root have "opId \<noteq> length g"
    by (auto dest: getDefiningOp_Some_lt)
  then show ?thesis
    using root by (simp add: g' getType_replaceOp getType_append) (simp add: getType_def)
qed

lemma FoldUnPaddingCollapseIntoExtract_type:
  assumes "FoldUnPaddingCollapseIntoExtract g opId = Some (success, g')"
  shows "getType g' (length g) = getType g opId"
proof -
  from FoldUnPaddingCollapseIntoExtract_successD [OF assms]
  obtain src re resultType x offs szs strs t where
    root: "getDefiningOp g opId = Some (CollapseShapeOp src re resultType)" and
    g': "g' = replaceOp (g @ [Some (ExtractSliceOp x offs szs strs resultType)]) opId (length g)"
    by blast
  from root have "opId \<noteq> length g"
    by (auto dest: getDefiningOp_Some_lt)
  then show ?thesis
    using root by (simp add: g' getType_replaceOp getType_append) (simp add: getType_def)
qed

lemma FoldInsertOfRankReducingInsert_type:
  assumes "FoldInsertOfRankReducingInsert k g opId = Some (success, g')"
      and "getDefiningOp g opId = Some (InsertSliceOp k source dest offs szs strs
             (case k of InsertSliceKind \<Rightarrow> getType g dest | ParallelInsertSliceKind \<Rightarrow> None))"
  shows "getType g' (length g) = getType g opId"
proof -
  from FoldInsertOfRankReducingInsert_successD [OF assms(1)] assms(2)
  obtain x where
    g': "g' = replaceOp (g @ [Some (buildInsertSliceOp g k x dest offs szs strs)]) opId (length g)"
    by auto
  from assms(2) have "opId \<noteq> length g"
    by (auto dest: getDefiningOp_Some_lt)
  then show ?thesis
    using assms(2)
    by (simp add: g' getType_replaceOp getType_append buildInsertSliceOp_def)
       (simp add: getType_def)
qed

lemma FoldPaddingExpandIntoInsert_type:
  assumes "FoldPaddingExpandIntoInsert k g opId = Some (success, g')"
  shows "getType g' opId = getType g opId"
proof -
  from FoldPaddingExpandIntoInsert_successD [OF assms]
  obtain source dest offs szs strs rt x where
    root: "getDefiningOp g opId = Some (InsertSliceOp k source dest offs szs strs rt)" and
    g': "g' = g[opId := Some (InsertSliceOp k x dest offs szs strs rt)]"
    by blast
  from root have "opId < length g"
    by (auto dest: getDefiningOp_Some_lt)
  then show ?thesis
    using root by (simp add: g' getType_def getDefiningOp_def)
qed

lemma getMixedSizes_grows:
  "length g \<le> length (fst (getMixedSizes g v i shp))"
proof (induction shp arbitrary: g i)
  case Nil
  show ?case by simp
next
  case (Cons d ds)
  show ?case
    using Cons.IH [of "g @ [Some (DimOp v i)]" "Suc i"] Cons.IH [of g "Suc i"]
    by (auto simp: create_def split: prod.splits)
qed

lemma length_replaceOp: "length (replaceOp G opId n) = length G"
  by (simp add: replaceOp_def eraseOp_def replaceAllUsesWith_def)

lemma BubbleUpExpandThroughParallelCollapse_type:
  assumes "getDefiningOp g opId = Some (ExpandShapeOp src expandReInds expandSizes resultType)"
      and "getDefiningOp g src = Some (CollapseShapeOp x collapseReInds t)"
      and "getType g x = Some xType"
      and "length expandReInds = length collapseReInds"
      and "\<forall>j < length collapseReInds.
             length (collapseReInds ! j) = 1 \<or> length (expandReInds ! j) = 1"
      and "length (concat collapseReInds) \<le> length (getShape xType)"
      and "length (concat expandReInds) = length expandSizes"
      and "getShape resultType = map staticOf expandSizes"
      and "getShape t = collapsedShape (getShape xType) collapseReInds"
      and "getShape t = collapsedShape (getShape resultType) expandReInds"
  shows "\<exists>g'. BubbleUpExpandThroughParallelCollapse g opId = Some (success, g') \<and>
           getType g' (length g' - 1) = getType g opId"
proof -
  obtain g1 cs where ms: "getMixedSizes g x 0 (getShape xType) = (g1, cs)"
    by (cases "getMixedSizes g x 0 (getShape xType)")
  obtain E C S where P: "positionwise 0 0 0 cs expandSizes (zip collapseReInds expandReInds)
      = (E, C, S)"
    using prod_cases3 by blast
  have csx: "snd (getMixedSizes g x 0 (getShape xType)) = cs"
       "fst (getMixedSizes g x 0 (getShape xType)) = g1"
    using ms by simp_all
  have st: "map staticOf cs = getShape xType"
    using getMixedSizes_static [of g x 0 "getShape xType"] by (simp add: csx)
  have cb: "length (concat collapseReInds) \<le> length cs"
    using assms(6) getMixedSizes_length [of g x 0 "getShape xType"] by (simp add: csx)
  have eb: "length (concat expandReInds) \<le> length expandSizes"
    using assms(7) by simp
  from reassociationLoop_from_start [OF assms(4) assms(5) cb eb P]
  obtain s where s: "reassociationLoop cs expandSizes expandReInds 0
        collapseReInds initialState = Some s"
      "newExpandReInds s = E" "newCollapseReInds s = C" "newExpandSizes s = S"
    by blast
  let ?ty = "RankedTensorType (map staticOf S) (getElementType resultType)"
  let ?G = "g1 @ [Some (ExpandShapeOp x E S ?ty),
                  Some (CollapseShapeOp (length g1) C (inferCollapsedType ?ty C))]"
  have run: "BubbleUpExpandThroughParallelCollapse g opId =
      Some (success, replaceOp ?G opId (Suc (length g1)))"
    using BubbleUpExpandThroughParallelCollapse_on_collapse [OF assms(1-4)] assms(5) s
    by (simp add: csx)
  have par: "\<forall>(cg, eg) \<in> set (zip collapseReInds expandReInds).
      length cg = 1 \<or> length eg = 1"
    using assms(5) zip_all_nth [OF assms(4) [symmetric],
      of "\<lambda>cg eg. length cg = 1 \<or> length eg = 1"]
    by simp
  have fz: "map fst (zip collapseReInds expandReInds) = collapseReInds"
       "map snd (zip collapseReInds expandReInds) = expandReInds"
    using assms(4) by simp_all
  have agree: "collapsedShape (drop 0 (map staticOf cs)) (map fst (zip collapseReInds expandReInds))
      = collapsedShape (drop 0 (map staticOf expandSizes))
          (map snd (zip collapseReInds expandReInds))"
    using assms(8,9,10) by (simp add: fz st)
  have "collapsedShape (map staticOf S) C = drop 0 (map staticOf expandSizes)"
    using par cb assms(7) agree P
    by (intro positionwise_collapsedShape [where c = 0 and i = 0 and cs = cs])
       (simp_all add: fz)
  then have ty: "inferCollapsedType ?ty C = resultType"
    using assms(8) by (cases resultType) (simp add: inferCollapsedType_def)
  from assms(1) have lt: "opId < length g"
    by (auto dest: getDefiningOp_Some_lt)
  have "length g \<le> length g1"
    using getMixedSizes_grows [of g x 0 "getShape xType"] by (simp add: csx)
  with lt have ne: "Suc (length g1) \<noteq> opId"
    by simp
  have "getType (replaceOp ?G opId (Suc (length g1))) (length (replaceOp ?G opId (Suc (length g1))) - 1)
      = Some (inferCollapsedType ?ty C)"
    using ne by (simp add: getType_replaceOp length_replaceOp)
                (simp add: getType_def getDefiningOp_def nth_append)
  moreover have "getType g opId = Some resultType"
    using assms(1) by (simp add: getType_def)
  ultimately show ?thesis
    using run ty by simp
qed


text \<open>
  The rank-0 program meets every premise of the lemma above except the covering of the
  expand's output shape: its two reshapes are typed as the type inference of reshapes
  demands, their reassociations have equally many groups and are parallel, and only the
  empty reassociation of the expansion does not cover the two dimensions of its output.
\<close>

lemma expandOfCollapseRankZero_typed:
  "getDefiningOp expandOfCollapseRankZero 2 =
     Some (ExpandShapeOp 1 [] [Attr 1, Attr 1] (RankedTensorType [1, 1] F32)) \<and>
   getDefiningOp expandOfCollapseRankZero 1 =
     Some (CollapseShapeOp 0 [] (RankedTensorType [] F32)) \<and>
   getType expandOfCollapseRankZero 0 = Some (RankedTensorType [1, 1] F32) \<and>
   inferCollapsedType (RankedTensorType [1, 1] F32) [] = RankedTensorType [] F32 \<and>
   map staticOf [Attr 1, Attr 1] = getShape (RankedTensorType [1, 1] F32) \<and>
   length (concat ([] :: nat list list)) \<noteq> length [Attr 1, Attr 1]"
  by (simp add: expandOfCollapseRankZero_def getDefiningOp_def getType_def
        inferCollapsedType_def)

text \<open>
  C10 fails on reshapes through rank 0. A collapse to \<open>tensor<f32>\<close> and an expansion from
  it both carry the empty reassociation, so each loop of the pattern runs zero times, the
  pattern succeeds, and the only user of the expansion, which expects
  \<open>tensor<1x1xf32>\<close>, is redirected to a collapse of type \<open>tensor<f32>\<close>.
\<close>

theorem BubbleUpExpandThroughParallelCollapse_rank_zero_type:
  "getType expandOfCollapseRankZero 2 = Some (RankedTensorType [1, 1] F32) \<and>
   getDefiningOp expandOfCollapseRankZero 3 = Some (OtherOp [2] None) \<and>
   BubbleUpExpandThroughParallelCollapse expandOfCollapseRankZero 2 =
     Some (success,
       [Some (OtherOp [] (Some (RankedTensorType [1, 1] F32))),
        Some (CollapseShapeOp 0 [] (RankedTensorType [] F32)),
        None,
        Some (OtherOp [5] None),
        Some (ExpandShapeOp 0 [] [] (RankedTensorType [] F32)),
        Some (CollapseShapeOp 4 [] (RankedTensorType [] F32))]) \<and>
   getType (snd (the (BubbleUpExpandThroughParallelCollapse expandOfCollapseRankZero 2))) 5 =
     Some (RankedTensorType [] F32)"
proof -
  have run: "BubbleUpExpandThroughParallelCollapse expandOfCollapseRankZero 2 =
     Some (success,
       [Some (OtherOp [] (Some (RankedTensorType [1, 1] F32))),
        Some (CollapseShapeOp 0 [] (RankedTensorType [] F32)),
        None,
        Some (OtherOp [5] None),
        Some (ExpandShapeOp 0 [] [] (RankedTensorType [] F32)),
        Some (CollapseShapeOp 4 [] (RankedTensorType [] F32))])"
    by code_simp
  show ?thesis
    unfolding run
    by (simp add: expandOfCollapseRankZero_def getType_def getDefiningOp_def)
qed


section \<open>Element-wise meaning across a rewrite\<close>

text \<open>
  C1 fails on the same program: the result of the original pair has the one index
  \<open>[0, 0]\<close>, the value substituted for it has only the empty index, and the operation
  created as the new expansion lowers the rank of \<open>tensor<1x1xf32>\<close> to 0.
\<close>

theorem BubbleUpExpandThroughParallelCollapse_rank_zero_indices:
  "tensorIndices (getShape (the (getType expandOfCollapseRankZero 2))) = [[0, 0]] \<and>
   tensorIndices
     (getShape (the (getType
        (snd (the (BubbleUpExpandThroughParallelCollapse expandOfCollapseRankZero 2))) 5)))
     = [[]] \<and>
   getDefiningOp
     (snd (the (BubbleUpExpandThroughParallelCollapse expandOfCollapseRankZero 2))) 4
     = Some (ExpandShapeOp 0 [] [] (RankedTensorType [] F32))"
proof -
  have run: "BubbleUpExpandThroughParallelCollapse expandOfCollapseRankZero 2 =
     Some (success,
       [Some (OtherOp [] (Some (RankedTensorType [1, 1] F32))),
        Some (CollapseShapeOp 0 [] (RankedTensorType [] F32)),
        None,
        Some (OtherOp [5] None),
        Some (ExpandShapeOp 0 [] [] (RankedTensorType [] F32)),
        Some (CollapseShapeOp 4 [] (RankedTensorType [] F32))])"
    by code_simp
  have idx: "tensorIndices [1, 1] = [[0, 0]]"
    by (simp add: upto.simps)
  show ?thesis
    unfolding run
    by (simp add: expandOfCollapseRankZero_def getType_def getDefiningOp_def idx)
qed

section \<open>Running a folding pattern again on its own output\<close>

text \<open>
  After a successful fold the operation that was produced can again be part of an
  instance of the same pattern: the new extract as the producer of an expansion or a
  collapse that used the folded root, the new or edited insert as a root over the next
  reshape. The lemmas below evaluate the pattern there.
\<close>


lemma staticOf_mapped:
  "map staticOf (map (case_OpFoldResult Attr (Val \<circ> f)) xs) = map staticOf xs"
proof (induction xs)
  case Nil
  show ?case by simp
next
  case (Cons a xs)
  then show ?case by (cases a) simp_all
qed

lemma FoldExpandOfRankReducingExtract_on_extract:
  assumes "getDefiningOp g opId = Some (ExpandShapeOp src re out resultType)"
      and "getDefiningOp g src = Some (ExtractSliceOp x offs szs strs t)"
      and "getType g x = Some srcType"
  shows "FoldExpandOfRankReducingExtract g opId =
           (if RankedTensorType (map staticOf szs) (getElementType srcType) = resultType
            then Some (success,
                   replaceOp (g @ [Some (ExtractSliceOp x offs szs strs resultType)])
                     opId (length g))
            else Some (failure None, g))"
  using assms
  by (auto simp: FoldExpandOfRankReducingExtract_def buildExtractSliceOp_def
        replaceOpWithNewOp_def create_def Let_def inferResultType_def)

lemma FoldExpandOfRankReducingExtract_successD2:
  assumes "FoldExpandOfRankReducingExtract g opId = Some (success, g')"
      and "getDefiningOp g opId = Some (ExpandShapeOp src re out resultType)"
  shows "\<exists>x offs szs strs t srcType.
           getDefiningOp g src = Some (ExtractSliceOp x offs szs strs t) \<and>
           getType g x = Some srcType \<and>
           RankedTensorType (map staticOf szs) (getElementType srcType) = resultType \<and>
           g' = replaceOp (g @ [Some (ExtractSliceOp x offs szs strs resultType)]) opId (length g)"
  using assms
  by (auto simp: FoldExpandOfRankReducingExtract_def buildExtractSliceOp_def Let_def
        replaceOpWithNewOp_def create_def inferResultType_def
        split: option.splits Operation.splits if_splits)

lemma FoldExpandOfRankReducingExtract_rematch:
  assumes "FoldExpandOfRankReducingExtract g opId = Some (success, g')"
      and "getDefiningOp g opId = Some (ExpandShapeOp src re out resultType)"
      and "getDefiningOp g user = Some (ExpandShapeOp opId ure uout userType)"
  shows "(\<exists>x offs szs strs. getDefiningOp g' (length g) =
            Some (ExtractSliceOp x offs szs strs resultType)) \<and>
         (\<exists>out'. getDefiningOp g' user = Some (ExpandShapeOp (length g) ure out' userType)) \<and>
         ((\<exists>g''. FoldExpandOfRankReducingExtract g' user = Some (success, g'')) \<longleftrightarrow>
            userType = resultType)"
proof -
  let ?n = "length g"
  let ?s = "\<lambda>v. if v = opId then ?n else v"
  from FoldExpandOfRankReducingExtract_successD2 [OF assms(1,2)]
  obtain x offs szs strs t srcType where
    prod: "getDefiningOp g src = Some (ExtractSliceOp x offs szs strs t)" and
    xty: "getType g x = Some srcType" and
    ty: "RankedTensorType (map staticOf szs) (getElementType srcType) = resultType" and
    g': "g' = replaceOp (g @ [Some (ExtractSliceOp x offs szs strs resultType)]) opId ?n"
    by blast
  from assms(2) have lt: "opId < ?n"
    by (auto dest: getDefiningOp_Some_lt)
  from assms(3) have ult: "user < ?n"
    by (auto dest: getDefiningOp_Some_lt)
  have src_ne: "src \<noteq> opId"
    using assms(2) prod by auto
  have une: "user \<noteq> opId"
    using assms(2,3) src_ne by auto
  have new: "getDefiningOp g' ?n =
      Some (ExtractSliceOp (?s x) (map (case_OpFoldResult Attr (Val \<circ> ?s)) offs)
              (map (case_OpFoldResult Attr (Val \<circ> ?s)) szs)
              (map (case_OpFoldResult Attr (Val \<circ> ?s)) strs) resultType)"
    using lt by (simp add: g' getDefiningOp_replaceOp getDefiningOp_append)
  have root': "getDefiningOp g' user =
      Some (ExpandShapeOp ?n ure (map (case_OpFoldResult Attr (Val \<circ> ?s)) uout) userType)"
    using une ult assms(3) by (simp add: g' getDefiningOp_replaceOp getDefiningOp_append)
  have xlt: "x < ?n"
    using xty by (auto simp: getType_def dest: getDefiningOp_Some_lt split: option.splits)
  have xty': "getType g' (?s x) = Some srcType"
  proof (cases "x = opId")
    case True
    then have "srcType = resultType"
      using xty assms(2) by (simp add: getType_def)
    then show ?thesis
      using True lt by (simp add: g' getType_replaceOp getType_append)
  next
    case False
    then show ?thesis
      using xty xlt by (simp add: g' getType_replaceOp getType_append)
  qed
  note ev = FoldExpandOfRankReducingExtract_on_extract [OF root' new xty',
      unfolded staticOf_mapped ty]
  have "(\<exists>g''. FoldExpandOfRankReducingExtract g' user = Some (success, g'')) \<longleftrightarrow>
      userType = resultType"
    unfolding ev by auto
  with new root' show ?thesis
    by auto
qed



lemma FoldUnPaddingCollapseIntoExtract_successD2:
  assumes "FoldUnPaddingCollapseIntoExtract g opId = Some (success, g')"
      and "getDefiningOp g opId = Some (CollapseShapeOp src re resultType)"
  shows "\<exists>x offs szs strs t.
           getDefiningOp g src = Some (ExtractSliceOp x offs szs strs t) \<and>
           g' = replaceOp (g @ [Some (ExtractSliceOp x offs szs strs resultType)]) opId (length g)"
  using assms
  by (auto simp: FoldUnPaddingCollapseIntoExtract_def create_def
        split: option.splits Operation.splits if_splits)

lemma FoldUnPaddingCollapseIntoExtract_rematch:
  assumes "FoldUnPaddingCollapseIntoExtract g opId = Some (success, g')"
      and "getDefiningOp g opId = Some (CollapseShapeOp src re resultType)"
      and "getDefiningOp g user = Some (CollapseShapeOp opId ure userType)"
  shows "(\<exists>x offs szs strs. getDefiningOp g' (length g) =
            Some (ExtractSliceOp x offs szs strs resultType)) \<and>
         getDefiningOp g' user = Some (CollapseShapeOp (length g) ure userType) \<and>
         ((\<exists>g''. FoldUnPaddingCollapseIntoExtract g' user = Some (success, g'')) \<longleftrightarrow>
            numUses g' (length g) = 1 \<and> isRankReducedType resultType userType = Success)"
proof -
  let ?n = "length g"
  let ?s = "\<lambda>v. if v = opId then ?n else v"
  from FoldUnPaddingCollapseIntoExtract_successD2 [OF assms(1,2)]
  obtain x offs szs strs t where
    prod: "getDefiningOp g src = Some (ExtractSliceOp x offs szs strs t)" and
    g': "g' = replaceOp (g @ [Some (ExtractSliceOp x offs szs strs resultType)]) opId ?n"
    by blast
  from assms(2) have lt: "opId < ?n"
    by (auto dest: getDefiningOp_Some_lt)
  from assms(3) have ult: "user < ?n"
    by (auto dest: getDefiningOp_Some_lt)
  have src_ne: "src \<noteq> opId"
    using assms(2) prod by auto
  have une: "user \<noteq> opId"
    using assms(2,3) src_ne by auto
  have new: "getDefiningOp g' ?n =
      Some (ExtractSliceOp (?s x) (map (case_OpFoldResult Attr (Val \<circ> ?s)) offs)
              (map (case_OpFoldResult Attr (Val \<circ> ?s)) szs)
              (map (case_OpFoldResult Attr (Val \<circ> ?s)) strs) resultType)"
    using lt by (simp add: g' getDefiningOp_replaceOp getDefiningOp_append)
  have root': "getDefiningOp g' user = Some (CollapseShapeOp ?n ure userType)"
    using une ult assms(3) by (simp add: g' getDefiningOp_replaceOp getDefiningOp_append)
  have ge: "1 \<le> numUses g' ?n"
    using numUses_ge [OF root', of ?n] by simp
  note ev = FoldUnPaddingCollapseIntoExtract_on_extract [OF root' new]
  have "(\<exists>g''. FoldUnPaddingCollapseIntoExtract g' user = Some (success, g'')) \<longleftrightarrow>
      numUses g' ?n = 1 \<and> isRankReducedType resultType userType = Success"
    unfolding ev using ge by auto
  with new root' show ?thesis
    by auto
qed

lemma FoldInsertOfRankReducingInsert_on_collapse:
  assumes "getDefiningOp g opId = Some (InsertSliceOp OpTy source dest offs szs strs rt)"
      and "getDefiningOp g source = Some (CollapseShapeOp x re t)"
  shows "FoldInsertOfRankReducingInsert OpTy g opId =
           (case (getType g x, getType g dest) of
              (Some srcType, Some destType) \<Rightarrow>
                if RankedTensorType (map staticOf szs) (getElementType destType) = srcType
                then Some (success,
                       replaceOp (g @ [Some (buildInsertSliceOp g OpTy x dest offs szs strs)])
                         opId (length g))
                else Some (failure None, g)
            | _ \<Rightarrow> None)"
  using assms
  by (auto simp: FoldInsertOfRankReducingInsert_def replaceOpWithNewOp_def create_def Let_def
        split: option.splits)

lemma FoldInsertOfRankReducingInsert_rematch:
  assumes "FoldInsertOfRankReducingInsert k g opId = Some (success, g')"
      and "getDefiningOp g opId = Some (InsertSliceOp k source dest offs szs strs rt)"
      and "getDefiningOp g source = Some (CollapseShapeOp x re t)"
      and closed: "\<forall>i op v. getDefiningOp g i = Some op \<longrightarrow> v \<in> set (operandsOf op) \<longrightarrow>
             v < length g"
      and dag: "\<forall>i op v. getDefiningOp g i = Some op \<longrightarrow> v \<in> set (operandsOf op) \<longrightarrow>
             rank v < (rank i :: nat)"
  shows "(\<exists>offs' szs' strs' rt'. getDefiningOp g' (length g) =
            Some (InsertSliceOp k x dest offs' szs' strs' rt')) \<and>
         ((\<exists>g''. FoldInsertOfRankReducingInsert k g' (length g) = Some (success, g'')) \<longleftrightarrow>
            (\<exists>y re' t'. getDefiningOp g x = Some (CollapseShapeOp y re' t') \<and>
               getType g y = getType g x))"
proof -
  let ?n = "length g"
  let ?s = "\<lambda>v. if v = opId then ?n else v"
  let ?new = "buildInsertSliceOp g k x dest offs szs strs"
  from assms(1) FoldInsertOfRankReducingInsert_on_collapse [OF assms(2,3)]
  obtain srcType destType where
    xty: "getType g x = Some srcType" and
    dty: "getType g dest = Some destType" and
    ty: "RankedTensorType (map staticOf szs) (getElementType destType) = srcType" and
    g': "g' = replaceOp (g @ [Some ?new]) opId ?n"
    by (auto split: option.splits if_splits)
  from assms(2) have lt: "opId < ?n"
    by (auto dest: getDefiningOp_Some_lt)
  have r1: "rank source < rank opId" "rank dest < rank opId"
    using dag assms(2) by auto
  have r2: "rank x < rank source"
    using dag assms(3) by auto
  have xne: "x \<noteq> opId" and dne: "dest \<noteq> opId"
    using r1 r2 by auto
  have xlt: "x < ?n" and dlt: "dest < ?n"
    using closed assms(2,3) by auto
  have new: "getDefiningOp g' ?n =
      Some (InsertSliceOp k x dest (map (case_OpFoldResult Attr (Val \<circ> ?s)) offs)
              (map (case_OpFoldResult Attr (Val \<circ> ?s)) szs)
              (map (case_OpFoldResult Attr (Val \<circ> ?s)) strs)
              (case k of InsertSliceKind \<Rightarrow> getType g dest | ParallelInsertSliceKind \<Rightarrow> None))"
    using lt xne dne
    by (simp add: g' getDefiningOp_replaceOp getDefiningOp_append buildInsertSliceOp_def)
  have dty': "getType g' dest = Some destType"
    using dty dne dlt by (simp add: g' getType_replaceOp getType_append)
  have px: "getDefiningOp g' x =
      map_option (mapOperands ?s) (getDefiningOp g x)"
    using xne xlt by (simp add: g' getDefiningOp_replaceOp getDefiningOp_append)
  have iff: "(\<exists>g''. FoldInsertOfRankReducingInsert k g' ?n = Some (success, g'')) \<longleftrightarrow>
            (\<exists>y re' t'. getDefiningOp g x = Some (CollapseShapeOp y re' t') \<and>
               getType g y = getType g x)"
  proof (cases "\<exists>y re' t'. getDefiningOp g x = Some (CollapseShapeOp y re' t')")
    case True
    then obtain y re' t' where cx: "getDefiningOp g x = Some (CollapseShapeOp y re' t')"
      by blast
    have "rank y < rank x"
      using dag cx by auto
    then have yne: "y \<noteq> opId"
      using r1 r2 by auto
    have ylt: "y < ?n"
      using closed cx by auto
    have px': "getDefiningOp g' x = Some (CollapseShapeOp y re' t')"
      using px cx yne by simp
    have yty': "getType g' y = getType g y"
      using yne ylt by (simp add: g' getType_replaceOp getType_append)
    note ev = FoldInsertOfRankReducingInsert_on_collapse [OF new px',
        unfolded staticOf_mapped yty' dty']
    have "(\<exists>g''. FoldInsertOfRankReducingInsert k g' ?n = Some (success, g'')) \<longleftrightarrow>
        getType g y = Some srcType"
      unfolding ev using ty by (auto split: option.splits)
    then show ?thesis
      using cx xty by simp
  next
    case False
    then have "\<forall>y re' t'. getDefiningOp g' x \<noteq> Some (CollapseShapeOp y re' t')"
      using px by (auto dest: mapOperands_CollapseShapeOpD)
    with new have "FoldInsertOfRankReducingInsert k g' ?n = Some (failure None, g')"
      by (rule FoldInsertOfRankReducingInsert_other_producer)
    with False show ?thesis
      by simp
  qed
  from new iff show ?thesis
    by blast
qed

lemma FoldPaddingExpandIntoInsert_on_expand:
  assumes "getDefiningOp g opId = Some (InsertSliceOp OpTy source dest offs szs strs rt)"
      and "getDefiningOp g source = Some (ExpandShapeOp x re out resultType)"
  shows "FoldPaddingExpandIntoInsert OpTy g opId =
           (case getType g x of
              None \<Rightarrow> None
            | Some srcType \<Rightarrow>
                if isRankReducedType resultType srcType \<noteq> Success
                then Some (failure (Some ''expected rank increasing expansion''), g)
                else Some (success,
                       g[opId := Some (InsertSliceOp OpTy x dest offs szs strs rt)]))"
  using assms
  by (auto simp: FoldPaddingExpandIntoInsert_def modifyOpInPlace_def split: option.splits)

lemma getDefiningOp_list_update_other:
  "x \<noteq> opId \<Longrightarrow> getDefiningOp (g[opId := slot]) x = getDefiningOp g x"
  by (simp add: getDefiningOp_def)

lemma FoldPaddingExpandIntoInsert_rematch:
  assumes "FoldPaddingExpandIntoInsert k g opId = Some (success, g')"
      and "getDefiningOp g opId = Some (InsertSliceOp k source dest offs szs strs rt)"
      and "getDefiningOp g source = Some (ExpandShapeOp x re out t)"
  shows "getDefiningOp g' opId = Some (InsertSliceOp k x dest offs szs strs rt) \<and>
         ((\<exists>g''. FoldPaddingExpandIntoInsert k g' opId = Some (success, g'')) \<longleftrightarrow>
            (\<exists>y re' out' t' yType. getDefiningOp g x = Some (ExpandShapeOp y re' out' t') \<and>
               getType g y = Some yType \<and> isRankReducedType t' yType = Success))"
proof -
  from assms(1) FoldPaddingExpandIntoInsert_on_expand [OF assms(2,3)]
  have g': "g' = g[opId := Some (InsertSliceOp k x dest offs szs strs rt)]"
    by (auto split: option.splits if_splits)
  from assms(2) have lt: "opId < length g"
    by (auto dest: getDefiningOp_Some_lt)
  have root': "getDefiningOp g' opId = Some (InsertSliceOp k x dest offs szs strs rt)"
    using lt by (simp add: g' getDefiningOp_def)
  have ty: "getType g' v = getType g v" for v
    using assms(2) lt by (cases "v = opId") (simp_all add: g' getType_def getDefiningOp_def)
  have iff: "(\<exists>g''. FoldPaddingExpandIntoInsert k g' opId = Some (success, g'')) \<longleftrightarrow>
            (\<exists>y re' out' t' yType. getDefiningOp g x = Some (ExpandShapeOp y re' out' t') \<and>
               getType g y = Some yType \<and> isRankReducedType t' yType = Success)"
  proof (cases "\<exists>y re' out' t'. getDefiningOp g' x = Some (ExpandShapeOp y re' out' t')")
    case True
    then obtain y re' out' t' where
      px': "getDefiningOp g' x = Some (ExpandShapeOp y re' out' t')"
      by blast
    then have xne: "x \<noteq> opId"
      using root' by auto
    then have px: "getDefiningOp g x = Some (ExpandShapeOp y re' out' t')"
      using px' by (simp add: g' getDefiningOp_list_update_other)
    note ev = FoldPaddingExpandIntoInsert_on_expand [OF root' px', unfolded ty]
    show ?thesis
      unfolding ev using px by (auto split: option.splits)
  next
    case False
    then have no: "\<forall>y re' out' t'. getDefiningOp g' x \<noteq> Some (ExpandShapeOp y re' out' t')"
      by blast
    have "\<forall>y re' out' t'. getDefiningOp g x \<noteq> Some (ExpandShapeOp y re' out' t')"
    proof (cases "x = opId")
      case True
      then show ?thesis using assms(2) by simp
    next
      case False
      then show ?thesis using no by (simp add: g' getDefiningOp_list_update_other)
    qed
    moreover from root' no
    have "FoldPaddingExpandIntoInsert k g' opId = Some (failure None, g')"
      by (rule FoldPaddingExpandIntoInsert_other_producer)
    ultimately show ?thesis
      by simp
  qed
  from root' iff show ?thesis
    by blast
qed



lemma dynamicOf_mapped:
  "dynamicOf (map (case_OpFoldResult Attr (Val \<circ> f)) xs) = map f (dynamicOf xs)"
proof (induction xs)
  case Nil
  show ?case by simp
next
  case (Cons a xs)
  then show ?case by (cases a) simp_all
qed

lemma operandsOf_mapOperands: "operandsOf (mapOperands f op) = map f (operandsOf op)"
  by (cases op) (simp_all add: dynamicOf_mapped)

lemma count_list_redirect:
  "opId \<noteq> n \<Longrightarrow>
   count_list (map (\<lambda>v. if v = opId then n else v) xs) n = count_list xs opId + count_list xs n"
  by (induction xs) auto

lemma usesIn_redirect:
  "opId \<noteq> n \<Longrightarrow>
   usesIn n (map_option (mapOperands (\<lambda>v. if v = opId then n else v)) slot) =
     usesIn opId slot + usesIn n slot"
  by (cases slot) (simp_all add: operandsOf_mapOperands count_list_redirect)

lemma numUses_unused:
  assumes "\<forall>i op. getDefiningOp g i = Some op \<longrightarrow> v \<notin> set (operandsOf op)"
  shows "numUses g v = 0"
proof -
  have "usesIn v slot = 0" if "slot \<in> set g" for slot
  proof (cases slot)
    case None
    then show ?thesis by simp
  next
    case (Some op)
    from that obtain i where "i < length g" "g ! i = slot"
      by (auto simp: in_set_conv_nth)
    then have "getDefiningOp g i = Some op"
      using Some by (simp add: getDefiningOp_def)
    with assms have "v \<notin> set (operandsOf op)" by blast
    then show ?thesis using Some by simp
  qed
  then show ?thesis
    by (simp add: numUses_def)
qed

lemma numUses_new_extract:
  assumes root: "getDefiningOp g opId = Some (CollapseShapeOp src re resultType)"
      and prod: "getDefiningOp g src = Some (ExtractSliceOp x offs szs strs t)"
      and closed: "\<forall>i op v. getDefiningOp g i = Some op \<longrightarrow> v \<in> set (operandsOf op) \<longrightarrow>
             v < length g"
      and dag: "\<forall>i op v. getDefiningOp g i = Some op \<longrightarrow> v \<in> set (operandsOf op) \<longrightarrow>
             rank v < (rank i :: nat)"
  shows "numUses (replaceOp (g @ [Some (ExtractSliceOp x offs szs strs resultType)]) opId
           (length g)) (length g) = numUses g opId"
proof -
  let ?n = "length g"
  let ?s = "\<lambda>v. if v = opId then ?n else v"
  let ?F = "map_option (mapOperands ?s)"
  let ?new = "ExtractSliceOp x offs szs strs resultType"
  let ?G = "g @ [Some ?new]"
  from root have lt: "opId < ?n" and at: "g ! opId = Some (CollapseShapeOp src re resultType)"
    by (auto dest: getDefiningOp_Some_lt)
  then have ne: "opId \<noteq> ?n" by simp
  have rk: "rank src < rank opId"
    using dag root by auto
  have ext_ops: "operandsOf ?new = operandsOf (ExtractSliceOp x offs szs strs t)"
    by simp
  have no_self: "opId \<notin> set (operandsOf ?new)"
  proof
    assume "opId \<in> set (operandsOf ?new)"
    then have "rank opId < rank src"
      using dag prod unfolding ext_ops by blast
    with rk show False by simp
  qed
  have no_n_new: "?n \<notin> set (operandsOf ?new)"
  proof
    assume "?n \<in> set (operandsOf ?new)"
    then have "?n < ?n"
      using closed prod unfolding ext_ops by blast
    then show False by simp
  qed
  have no_n: "numUses g ?n = 0"
  proof (rule numUses_unused, intro allI impI notI)
    fix i op
    assume "getDefiningOp g i = Some op" "?n \<in> set (operandsOf op)"
    with closed have "?n < ?n" by blast
    then show False by simp
  qed
  have src_lt: "src < ?n" and src_ne: "src \<noteq> opId"
    using closed root rk by auto
  have slot0: "(map (usesIn ?n \<circ> ?F) ?G) ! opId = 0"
    using lt at src_lt src_ne by (simp add: nth_append)
  have upd: "map (usesIn ?n) ((map ?F ?G)[opId := None]) =
      (map (usesIn ?n \<circ> ?F) ?G)[opId := 0]"
    by (simp only: map_update map_map usesIn.simps)
  have "numUses (replaceOp ?G opId ?n) ?n =
      sum_list ((map (usesIn ?n \<circ> ?F) ?G)[opId := 0])"
    unfolding numUses_def replaceOp_def eraseOp_def replaceAllUsesWith_def upd ..
  also have "\<dots> = sum_list (map (usesIn ?n \<circ> ?F) ?G)"
    using slot0 list_update_id [of "map (usesIn ?n \<circ> ?F) ?G" opId] by simp
  also have "\<dots> = sum_list (map (\<lambda>slot. usesIn opId slot + usesIn ?n slot) ?G)"
    using ne by (simp add: usesIn_redirect comp_def)
  also have "\<dots> = numUses ?G opId + numUses ?G ?n"
    by (simp add: numUses_def sum_list_addf)
  also have "\<dots> = numUses g opId"
    using no_self no_n_new no_n by (simp add: numUses_def)
  finally show ?thesis .
qed


text \<open>
  C8, as the code has it: after one successful application the same pattern matches again
  on the operation it produced exactly when that operation is again part of an instance
  of the pattern.
  \<^item> Expand-after-extract: an expansion that used the folded expansion now reads the new
    extract, and the pattern matches there if and only if its result type is the result
    type of the folded expansion.
  \<^item> Collapse-into-extract: a collapse that used the folded collapse now reads the new
    extract, and the pattern matches there if and only if that is the only use of the new
    extract and its result type is a rank reduction of the folded collapse's result type;
    in a closed acyclic program the new extract has as many uses as the folded collapse
    had.
  \<^item> Collapse-into-insert, in a closed acyclic program: the pattern matches on the new
    insert if and only if the source of the folded collapse is itself produced by a
    collapse whose source has the same type.
  \<^item> Expand-into-insert: the pattern matches on the edited insert if and only if the
    source of the folded expansion is itself produced by an expansion that passes the
    rank-reduction test.
\<close>

theorem folding_rerun_match_iff:
  "(FoldExpandOfRankReducingExtract g1 opId1 = Some (success, g1') \<and>
    getDefiningOp g1 opId1 = Some (ExpandShapeOp src1 re1 out1 resultType1) \<and>
    getDefiningOp g1 user1 = Some (ExpandShapeOp opId1 ure1 uout1 userType1) \<longrightarrow>
      (\<exists>x offs szs strs. getDefiningOp g1' (length g1) =
         Some (ExtractSliceOp x offs szs strs resultType1)) \<and>
      (\<exists>out'. getDefiningOp g1' user1 =
         Some (ExpandShapeOp (length g1) ure1 out' userType1)) \<and>
      ((\<exists>g''. FoldExpandOfRankReducingExtract g1' user1 = Some (success, g'')) \<longleftrightarrow>
         userType1 = resultType1)) \<and>
   (FoldUnPaddingCollapseIntoExtract g2 opId2 = Some (success, g2') \<and>
    getDefiningOp g2 opId2 = Some (CollapseShapeOp src2 re2 resultType2) \<and>
    getDefiningOp g2 user2 = Some (CollapseShapeOp opId2 ure2 userType2) \<longrightarrow>
      (\<exists>x offs szs strs. getDefiningOp g2' (length g2) =
         Some (ExtractSliceOp x offs szs strs resultType2)) \<and>
      getDefiningOp g2' user2 = Some (CollapseShapeOp (length g2) ure2 userType2) \<and>
      ((\<exists>g''. FoldUnPaddingCollapseIntoExtract g2' user2 = Some (success, g'')) \<longleftrightarrow>
         numUses g2' (length g2) = 1 \<and>
         isRankReducedType resultType2 userType2 = Success) \<and>
      ((\<forall>i op v. getDefiningOp g2 i = Some op \<longrightarrow> v \<in> set (operandsOf op) \<longrightarrow>
          v < length g2 \<and> rank2 v < (rank2 i :: nat)) \<longrightarrow>
         numUses g2' (length g2) = numUses g2 opId2)) \<and>
   (FoldInsertOfRankReducingInsert k3 g3 opId3 = Some (success, g3') \<and>
    getDefiningOp g3 opId3 = Some (InsertSliceOp k3 source3 dest3 offs3 szs3 strs3 rt3) \<and>
    getDefiningOp g3 source3 = Some (CollapseShapeOp x3 re3 t3) \<and>
    (\<forall>i op v. getDefiningOp g3 i = Some op \<longrightarrow> v \<in> set (operandsOf op) \<longrightarrow>
       v < length g3 \<and> rank3 v < (rank3 i :: nat)) \<longrightarrow>
      (\<exists>offs' szs' strs' rt'. getDefiningOp g3' (length g3) =
         Some (InsertSliceOp k3 x3 dest3 offs' szs' strs' rt')) \<and>
      ((\<exists>g''. FoldInsertOfRankReducingInsert k3 g3' (length g3) = Some (success, g'')) \<longleftrightarrow>
         (\<exists>y re' t'. getDefiningOp g3 x3 = Some (CollapseShapeOp y re' t') \<and>
            getType g3 y = getType g3 x3))) \<and>
   (FoldPaddingExpandIntoInsert k4 g4 opId4 = Some (success, g4') \<and>
    getDefiningOp g4 opId4 = Some (InsertSliceOp k4 source4 dest4 offs4 szs4 strs4 rt4) \<and>
    getDefiningOp g4 source4 = Some (ExpandShapeOp x4 re4 out4 t4) \<longrightarrow>
      getDefiningOp g4' opId4 = Some (InsertSliceOp k4 x4 dest4 offs4 szs4 strs4 rt4) \<and>
      ((\<exists>g''. FoldPaddingExpandIntoInsert k4 g4' opId4 = Some (success, g'')) \<longleftrightarrow>
         (\<exists>y re' out' t' yType.
            getDefiningOp g4 x4 = Some (ExpandShapeOp y re' out' t') \<and>
            getType g4 y = Some yType \<and> isRankReducedType t' yType = Success)))"
proof -
  have c1: "FoldExpandOfRankReducingExtract g1 opId1 = Some (success, g1') \<and>
    getDefiningOp g1 opId1 = Some (ExpandShapeOp src1 re1 out1 resultType1) \<and>
    getDefiningOp g1 user1 = Some (ExpandShapeOp opId1 ure1 uout1 userType1) \<longrightarrow>
      (\<exists>x offs szs strs. getDefiningOp g1' (length g1) =
         Some (ExtractSliceOp x offs szs strs resultType1)) \<and>
      (\<exists>out'. getDefiningOp g1' user1 =
         Some (ExpandShapeOp (length g1) ure1 out' userType1)) \<and>
      ((\<exists>g''. FoldExpandOfRankReducingExtract g1' user1 = Some (success, g'')) \<longleftrightarrow>
         userType1 = resultType1)"
    using FoldExpandOfRankReducingExtract_rematch [of g1 opId1 g1' src1 re1 out1 resultType1
        user1 ure1 uout1 userType1]
    by blast
  have c2: "FoldUnPaddingCollapseIntoExtract g2 opId2 = Some (success, g2') \<and>
    getDefiningOp g2 opId2 = Some (CollapseShapeOp src2 re2 resultType2) \<and>
    getDefiningOp g2 user2 = Some (CollapseShapeOp opId2 ure2 userType2) \<longrightarrow>
      (\<exists>x offs szs strs. getDefiningOp g2' (length g2) =
         Some (ExtractSliceOp x offs szs strs resultType2)) \<and>
      getDefiningOp g2' user2 = Some (CollapseShapeOp (length g2) ure2 userType2) \<and>
      ((\<exists>g''. FoldUnPaddingCollapseIntoExtract g2' user2 = Some (success, g'')) \<longleftrightarrow>
         numUses g2' (length g2) = 1 \<and>
         isRankReducedType resultType2 userType2 = Success) \<and>
      ((\<forall>i op v. getDefiningOp g2 i = Some op \<longrightarrow> v \<in> set (operandsOf op) \<longrightarrow>
          v < length g2 \<and> rank2 v < (rank2 i :: nat)) \<longrightarrow>
         numUses g2' (length g2) = numUses g2 opId2)"
  proof (intro impI)
    assume a: "FoldUnPaddingCollapseIntoExtract g2 opId2 = Some (success, g2') \<and>
      getDefiningOp g2 opId2 = Some (CollapseShapeOp src2 re2 resultType2) \<and>
      getDefiningOp g2 user2 = Some (CollapseShapeOp opId2 ure2 userType2)"
    then have h: "FoldUnPaddingCollapseIntoExtract g2 opId2 = Some (success, g2')"
      "getDefiningOp g2 opId2 = Some (CollapseShapeOp src2 re2 resultType2)"
      "getDefiningOp g2 user2 = Some (CollapseShapeOp opId2 ure2 userType2)"
      by blast+
    note m = FoldUnPaddingCollapseIntoExtract_rematch [OF h]
    have link: "(\<forall>i op v. getDefiningOp g2 i = Some op \<longrightarrow> v \<in> set (operandsOf op) \<longrightarrow>
          v < length g2 \<and> rank2 v < rank2 i) \<longrightarrow>
         numUses g2' (length g2) = numUses g2 opId2"
    proof (intro impI)
      assume wf: "\<forall>i op v. getDefiningOp g2 i = Some op \<longrightarrow> v \<in> set (operandsOf op) \<longrightarrow>
          v < length g2 \<and> rank2 v < rank2 i"
      then have closed: "\<forall>i op v. getDefiningOp g2 i = Some op \<longrightarrow>
          v \<in> set (operandsOf op) \<longrightarrow> v < length g2"
        and dag: "\<forall>i op v. getDefiningOp g2 i = Some op \<longrightarrow>
          v \<in> set (operandsOf op) \<longrightarrow> rank2 v < rank2 i"
        by blast+
      from FoldUnPaddingCollapseIntoExtract_successD2 [OF h(1,2)]
      obtain x offs szs strs t where
        prod: "getDefiningOp g2 src2 = Some (ExtractSliceOp x offs szs strs t)" and
        g': "g2' = replaceOp (g2 @ [Some (ExtractSliceOp x offs szs strs resultType2)])
                     opId2 (length g2)"
        by blast
      show "numUses g2' (length g2) = numUses g2 opId2"
        unfolding g' by (rule numUses_new_extract [OF h(2) prod closed dag])
    qed
    from m link show "(\<exists>x offs szs strs. getDefiningOp g2' (length g2) =
         Some (ExtractSliceOp x offs szs strs resultType2)) \<and>
      getDefiningOp g2' user2 = Some (CollapseShapeOp (length g2) ure2 userType2) \<and>
      ((\<exists>g''. FoldUnPaddingCollapseIntoExtract g2' user2 = Some (success, g'')) \<longleftrightarrow>
         numUses g2' (length g2) = 1 \<and>
         isRankReducedType resultType2 userType2 = Success) \<and>
      ((\<forall>i op v. getDefiningOp g2 i = Some op \<longrightarrow> v \<in> set (operandsOf op) \<longrightarrow>
          v < length g2 \<and> rank2 v < (rank2 i :: nat)) \<longrightarrow>
         numUses g2' (length g2) = numUses g2 opId2)"
      by blast
  qed
  have c3: "FoldInsertOfRankReducingInsert k3 g3 opId3 = Some (success, g3') \<and>
    getDefiningOp g3 opId3 = Some (InsertSliceOp k3 source3 dest3 offs3 szs3 strs3 rt3) \<and>
    getDefiningOp g3 source3 = Some (CollapseShapeOp x3 re3 t3) \<and>
    (\<forall>i op v. getDefiningOp g3 i = Some op \<longrightarrow> v \<in> set (operandsOf op) \<longrightarrow>
       v < length g3 \<and> rank3 v < (rank3 i :: nat)) \<longrightarrow>
      (\<exists>offs' szs' strs' rt'. getDefiningOp g3' (length g3) =
         Some (InsertSliceOp k3 x3 dest3 offs' szs' strs' rt')) \<and>
      ((\<exists>g''. FoldInsertOfRankReducingInsert k3 g3' (length g3) = Some (success, g'')) \<longleftrightarrow>
         (\<exists>y re' t'. getDefiningOp g3 x3 = Some (CollapseShapeOp y re' t') \<and>
            getType g3 y = getType g3 x3))"
  proof (intro impI)
    assume a: "FoldInsertOfRankReducingInsert k3 g3 opId3 = Some (success, g3') \<and>
      getDefiningOp g3 opId3 = Some (InsertSliceOp k3 source3 dest3 offs3 szs3 strs3 rt3) \<and>
      getDefiningOp g3 source3 = Some (CollapseShapeOp x3 re3 t3) \<and>
      (\<forall>i op v. getDefiningOp g3 i = Some op \<longrightarrow> v \<in> set (operandsOf op) \<longrightarrow>
         v < length g3 \<and> rank3 v < (rank3 i :: nat))"
    then have closed: "\<forall>i op v. getDefiningOp g3 i = Some op \<longrightarrow>
        v \<in> set (operandsOf op) \<longrightarrow> v < length g3"
      and dag: "\<forall>i op v. getDefiningOp g3 i = Some op \<longrightarrow>
        v \<in> set (operandsOf op) \<longrightarrow> rank3 v < rank3 i"
      by blast+
    from a have h: "FoldInsertOfRankReducingInsert k3 g3 opId3 = Some (success, g3')"
      "getDefiningOp g3 opId3 = Some (InsertSliceOp k3 source3 dest3 offs3 szs3 strs3 rt3)"
      "getDefiningOp g3 source3 = Some (CollapseShapeOp x3 re3 t3)"
      by blast+
    show "(\<exists>offs' szs' strs' rt'. getDefiningOp g3' (length g3) =
         Some (InsertSliceOp k3 x3 dest3 offs' szs' strs' rt')) \<and>
      ((\<exists>g''. FoldInsertOfRankReducingInsert k3 g3' (length g3) = Some (success, g'')) \<longleftrightarrow>
         (\<exists>y re' t'. getDefiningOp g3 x3 = Some (CollapseShapeOp y re' t') \<and>
            getType g3 y = getType g3 x3))"
      by (rule FoldInsertOfRankReducingInsert_rematch [OF h closed dag])
  qed
  have c4: "FoldPaddingExpandIntoInsert k4 g4 opId4 = Some (success, g4') \<and>
    getDefiningOp g4 opId4 = Some (InsertSliceOp k4 source4 dest4 offs4 szs4 strs4 rt4) \<and>
    getDefiningOp g4 source4 = Some (ExpandShapeOp x4 re4 out4 t4) \<longrightarrow>
      getDefiningOp g4' opId4 = Some (InsertSliceOp k4 x4 dest4 offs4 szs4 strs4 rt4) \<and>
      ((\<exists>g''. FoldPaddingExpandIntoInsert k4 g4' opId4 = Some (success, g'')) \<longleftrightarrow>
         (\<exists>y re' out' t' yType.
            getDefiningOp g4 x4 = Some (ExpandShapeOp y re' out' t') \<and>
            getType g4 y = Some yType \<and> isRankReducedType t' yType = Success))"
    using FoldPaddingExpandIntoInsert_rematch [of k4 g4 opId4 g4' source4 dest4 offs4 szs4
        strs4 rt4 x4 re4 out4 t4]
    by blast
  show ?thesis
    by (rule conjI [OF c1 conjI [OF c2 conjI [OF c3 c4]]])
qed

theorem folding_rerun_match_iff_witness:
  "(\<exists>g''. FoldExpandOfRankReducingExtract
            (snd (the (FoldExpandOfRankReducingExtract expandOfExpandOfExtract 2))) 3
          = Some (success, g'')) \<and>
   (\<exists>g''. FoldUnPaddingCollapseIntoExtract
            (snd (the (FoldUnPaddingCollapseIntoExtract collapseOfCollapseOfExtract 2))) 3
          = Some (success, g'')) \<and>
   (\<exists>g''. FoldInsertOfRankReducingInsert InsertSliceKind
            (snd (the (FoldInsertOfRankReducingInsert InsertSliceKind
                         insertOfCollapseOfCollapse 4)))
            (length insertOfCollapseOfCollapse)
          = Some (success, g'')) \<and>
   (\<exists>g''. FoldPaddingExpandIntoInsert InsertSliceKind
            (snd (the (FoldPaddingExpandIntoInsert InsertSliceKind insertOfExpandOfExpand 4))) 4
          = Some (success, g'')) \<and>
   \<not> (\<exists>g''. FoldPaddingExpandIntoInsert InsertSliceKind
            (snd (the (FoldPaddingExpandIntoInsert InsertSliceKind insertOfExpandOfSplit 4))) 4
          = Some (success, g'')) \<and>
   numUses collapseOfCollapseOfExtract 2 = 1"
proof -
  have a1: "FoldExpandOfRankReducingExtract expandOfExpandOfExtract 2 =
      Some (success, snd (the (FoldExpandOfRankReducingExtract expandOfExpandOfExtract 2)))"
    by (simp add: expandOfExpandOfExtract_def FoldExpandOfRankReducingExtract_def
          getDefiningOp_def getType_def buildExtractSliceOp_def inferResultType_def)
  have a2: "getDefiningOp expandOfExpandOfExtract 2 =
      Some (ExpandShapeOp 1 [[0, 1], [2]] [Attr 4, Attr 1, Attr 4]
              (RankedTensorType [4, 1, 4] F32))"
    by (simp add: expandOfExpandOfExtract_def getDefiningOp_def)
  have a3: "getDefiningOp expandOfExpandOfExtract 3 =
      Some (ExpandShapeOp 2 [[0], [1], [2]] [Attr 4, Attr 1, Attr 4]
              (RankedTensorType [4, 1, 4] F32))"
    by (simp add: expandOfExpandOfExtract_def getDefiningOp_def)
  have b0: "FoldUnPaddingCollapseIntoExtract collapseOfCollapseOfExtract 2 =
      Some (success,
        [Some (OtherOp [] (Some (RankedTensorType [8, 8, 8, 8] F32))),
         Some (ExtractSliceOp 0 [Attr 2, Attr 0, Attr 0, Attr 0]
                 [Attr 4, Attr 1, Attr 1, Attr 4] [Attr 1, Attr 1, Attr 1, Attr 1]
                 (RankedTensorType [4, 1, 1, 4] F32)),
         None,
         Some (CollapseShapeOp 5 [[0, 1], [2]] (RankedTensorType [4, 4] F32)),
         Some (OtherOp [3] None),
         Some (ExtractSliceOp 0 [Attr 2, Attr 0, Attr 0, Attr 0]
                 [Attr 4, Attr 1, Attr 1, Attr 4] [Attr 1, Attr 1, Attr 1, Attr 1]
                 (RankedTensorType [4, 1, 4] F32))])"
    by code_simp
  have b1: "FoldUnPaddingCollapseIntoExtract collapseOfCollapseOfExtract 2 =
      Some (success, snd (the (FoldUnPaddingCollapseIntoExtract collapseOfCollapseOfExtract 2)))"
    by (simp add: b0)
  have b2: "getDefiningOp collapseOfCollapseOfExtract 2 =
      Some (CollapseShapeOp 1 [[0, 1], [2], [3]] (RankedTensorType [4, 1, 4] F32))"
    by (simp add: collapseOfCollapseOfExtract_def getDefiningOp_def)
  have b3: "getDefiningOp collapseOfCollapseOfExtract 3 =
      Some (CollapseShapeOp 2 [[0, 1], [2]] (RankedTensorType [4, 4] F32))"
    by (simp add: collapseOfCollapseOfExtract_def getDefiningOp_def)
  have b4: "numUses (snd (the (FoldUnPaddingCollapseIntoExtract collapseOfCollapseOfExtract 2)))
      (length collapseOfCollapseOfExtract) = 1"
    unfolding b0 by (simp add: collapseOfCollapseOfExtract_def numUses_def)
  have b5: "isRankReducedType (RankedTensorType [4, 1, 4] F32) (RankedTensorType [4, 4] F32)
      = Success"
    by (simp add: isRankReducedType_def)
  have c1: "FoldInsertOfRankReducingInsert InsertSliceKind insertOfCollapseOfCollapse 4 =
      Some (success, snd (the (FoldInsertOfRankReducingInsert InsertSliceKind
                                 insertOfCollapseOfCollapse 4)))"
    by (simp add: insertOfCollapseOfCollapse_def FoldInsertOfRankReducingInsert_def
          getDefiningOp_def getType_def)
  have c2: "getDefiningOp insertOfCollapseOfCollapse 4 =
      Some (InsertSliceOp InsertSliceKind 2 3 [Attr 0, Attr 0, Attr 0]
              [Attr 4, Attr 1, Attr 4] [Attr 1, Attr 1, Attr 1]
              (Some (RankedTensorType [8, 8, 8] F32)))"
    by (simp add: insertOfCollapseOfCollapse_def getDefiningOp_def)
  have c3: "getDefiningOp insertOfCollapseOfCollapse 2 =
      Some (CollapseShapeOp 1 [[0, 1], [2]] (RankedTensorType [4, 4] F32))"
    by (simp add: insertOfCollapseOfCollapse_def getDefiningOp_def)
  have c4: "\<forall>i op v. getDefiningOp insertOfCollapseOfCollapse i = Some op \<longrightarrow>
      v \<in> set (operandsOf op) \<longrightarrow> v < length insertOfCollapseOfCollapse \<and> id v < id i"
    by (auto simp: insertOfCollapseOfCollapse_def getDefiningOp_def nth_Cons' less_Suc_eq
          split: if_splits)
  have c5: "getDefiningOp insertOfCollapseOfCollapse 1 =
      Some (CollapseShapeOp 0 [[0], [1], [2]] (RankedTensorType [4, 1, 4] F32))"
    by (simp add: insertOfCollapseOfCollapse_def getDefiningOp_def)
  have c6: "getType insertOfCollapseOfCollapse 0 = getType insertOfCollapseOfCollapse 1"
    by (simp add: insertOfCollapseOfCollapse_def getType_def getDefiningOp_def)
  have d1: "FoldPaddingExpandIntoInsert InsertSliceKind insertOfExpandOfExpand 4 =
      Some (success, snd (the (FoldPaddingExpandIntoInsert InsertSliceKind
                                 insertOfExpandOfExpand 4)))"
    by (simp add: insertOfExpandOfExpand_def FoldPaddingExpandIntoInsert_def getDefiningOp_def
          getType_def isRankReducedType_def)
  have d2: "getDefiningOp insertOfExpandOfExpand 4 =
      Some (InsertSliceOp InsertSliceKind 2 3 [Attr 0, Attr 0, Attr 0]
              [Attr 1, Attr 1, Attr 4] [Attr 1, Attr 1, Attr 1]
              (Some (RankedTensorType [8, 8, 8] F32)))"
    by (simp add: insertOfExpandOfExpand_def getDefiningOp_def)
  have d3: "getDefiningOp insertOfExpandOfExpand 2 =
      Some (ExpandShapeOp 1 [[0, 1], [2]] [Attr 1, Attr 1, Attr 4]
              (RankedTensorType [1, 1, 4] F32))"
    by (simp add: insertOfExpandOfExpand_def getDefiningOp_def)
  have d4: "getDefiningOp insertOfExpandOfExpand 1 =
      Some (ExpandShapeOp 0 [[0, 1]] [Attr 1, Attr 4] (RankedTensorType [1, 4] F32))"
    by (simp add: insertOfExpandOfExpand_def getDefiningOp_def)
  have d5: "getType insertOfExpandOfExpand 0 = Some (RankedTensorType [4] F32)"
    by (simp add: insertOfExpandOfExpand_def getType_def getDefiningOp_def)
  have d6: "isRankReducedType (RankedTensorType [1, 4] F32) (RankedTensorType [4] F32) = Success"
    by (simp add: isRankReducedType_def)
  have e1: "FoldPaddingExpandIntoInsert InsertSliceKind insertOfExpandOfSplit 4 =
      Some (success, snd (the (FoldPaddingExpandIntoInsert InsertSliceKind
                                 insertOfExpandOfSplit 4)))"
    by (simp add: insertOfExpandOfSplit_def FoldPaddingExpandIntoInsert_def getDefiningOp_def
          getType_def isRankReducedType_def)
  have e2: "getDefiningOp insertOfExpandOfSplit 4 =
      Some (InsertSliceOp InsertSliceKind 2 3 [Attr 0, Attr 0, Attr 0]
              [Attr 1, Attr 2, Attr 4] [Attr 1, Attr 1, Attr 1]
              (Some (RankedTensorType [8, 8, 8] F32)))"
    by (simp add: insertOfExpandOfSplit_def getDefiningOp_def)
  have e3: "getDefiningOp insertOfExpandOfSplit 2 =
      Some (ExpandShapeOp 1 [[0, 1], [2]] [Attr 1, Attr 2, Attr 4]
              (RankedTensorType [1, 2, 4] F32))"
    by (simp add: insertOfExpandOfSplit_def getDefiningOp_def)
  have e4: "getDefiningOp insertOfExpandOfSplit 1 =
      Some (ExpandShapeOp 0 [[0, 1]] [Attr 2, Attr 4] (RankedTensorType [2, 4] F32))"
    by (simp add: insertOfExpandOfSplit_def getDefiningOp_def)
  have e5: "getType insertOfExpandOfSplit 0 = Some (RankedTensorType [8] F32)"
    by (simp add: insertOfExpandOfSplit_def getType_def getDefiningOp_def)
  have e6: "isRankReducedType (RankedTensorType [2, 4] F32) (RankedTensorType [8] F32)
      \<noteq> Success"
    by (simp add: isRankReducedType_def)
  note T = folding_rerun_match_iff
  have A: "\<exists>g''. FoldExpandOfRankReducingExtract
            (snd (the (FoldExpandOfRankReducingExtract expandOfExpandOfExtract 2))) 3
          = Some (success, g'')"
    using T [THEN conjunct1, rule_format, OF conjI [OF a1 conjI [OF a2 a3]]] by blast
  have B: "\<exists>g''. FoldUnPaddingCollapseIntoExtract
            (snd (the (FoldUnPaddingCollapseIntoExtract collapseOfCollapseOfExtract 2))) 3
          = Some (success, g'')"
    using T [THEN conjunct2, THEN conjunct1, rule_format, OF conjI [OF b1 conjI [OF b2 b3]]]
      b4 b5 by blast
  have b6: "\<forall>i op v. getDefiningOp collapseOfCollapseOfExtract i = Some op \<longrightarrow>
      v \<in> set (operandsOf op) \<longrightarrow> v < length collapseOfCollapseOfExtract \<and> id v < id i"
    by (auto simp: collapseOfCollapseOfExtract_def getDefiningOp_def nth_Cons' less_Suc_eq
          split: if_splits)
  have B': "numUses collapseOfCollapseOfExtract 2 = 1"
    using T [THEN conjunct2, THEN conjunct1, rule_format, OF conjI [OF b1 conjI [OF b2 b3]]]
      b4 b6 by metis
  have C: "\<exists>g''. FoldInsertOfRankReducingInsert InsertSliceKind
            (snd (the (FoldInsertOfRankReducingInsert InsertSliceKind
                         insertOfCollapseOfCollapse 4)))
            (length insertOfCollapseOfCollapse)
          = Some (success, g'')"
    using T [THEN conjunct2, THEN conjunct2, THEN conjunct1, rule_format,
        OF conjI [OF c1 conjI [OF c2 conjI [OF c3 c4]]]] c5 c6 by blast
  have D: "\<exists>g''. FoldPaddingExpandIntoInsert InsertSliceKind
            (snd (the (FoldPaddingExpandIntoInsert InsertSliceKind insertOfExpandOfExpand 4))) 4
          = Some (success, g'')"
    using T [THEN conjunct2, THEN conjunct2, THEN conjunct2, rule_format,
        OF conjI [OF d1 conjI [OF d2 d3]]] d4 d5 d6 by blast
  have E: "\<not> (\<exists>g''. FoldPaddingExpandIntoInsert InsertSliceKind
            (snd (the (FoldPaddingExpandIntoInsert InsertSliceKind insertOfExpandOfSplit 4))) 4
          = Some (success, g''))"
    using T [THEN conjunct2, THEN conjunct2, THEN conjunct2, rule_format,
        OF conjI [OF e1 conjI [OF e2 e3]]] e4 e5 e6 by auto
  from A B C D E B' show ?thesis
    by blast
qed

text \<open>
  C8 as stated fails: on an insert fed by two padding expansions the expand-into-insert
  pattern matches, and matches again on the insert it has just edited.
\<close>

theorem folding_rerun_matches_on_chain:
  "fst (the (FoldPaddingExpandIntoInsert InsertSliceKind insertOfExpandOfExpand 4)) = success \<and>
   fst (the (FoldPaddingExpandIntoInsert InsertSliceKind
               (snd (the (FoldPaddingExpandIntoInsert InsertSliceKind
                            insertOfExpandOfExpand 4))) 4)) = success"
proof -
  have a: "FoldPaddingExpandIntoInsert InsertSliceKind insertOfExpandOfExpand 4 =
      Some (success,
        [Some (OtherOp [] (Some (RankedTensorType [4] F32))),
         Some (ExpandShapeOp 0 [[0, 1]] [Attr 1, Attr 4] (RankedTensorType [1, 4] F32)),
         Some (ExpandShapeOp 1 [[0, 1], [2]] [Attr 1, Attr 1, Attr 4]
                 (RankedTensorType [1, 1, 4] F32)),
         Some (OtherOp [] (Some (RankedTensorType [8, 8, 8] F32))),
         Some (InsertSliceOp InsertSliceKind 1 3 [Attr 0, Attr 0, Attr 0]
                 [Attr 1, Attr 1, Attr 4] [Attr 1, Attr 1, Attr 1]
                 (Some (RankedTensorType [8, 8, 8] F32)))])"
    by (simp add: insertOfExpandOfExpand_def FoldPaddingExpandIntoInsert_def getDefiningOp_def
          getType_def isRankReducedType_def modifyOpInPlace_def)
  have b: "fst (the (FoldPaddingExpandIntoInsert InsertSliceKind
        [Some (OtherOp [] (Some (RankedTensorType [4] F32))),
         Some (ExpandShapeOp 0 [[0, 1]] [Attr 1, Attr 4] (RankedTensorType [1, 4] F32)),
         Some (ExpandShapeOp 1 [[0, 1], [2]] [Attr 1, Attr 1, Attr 4]
                 (RankedTensorType [1, 1, 4] F32)),
         Some (OtherOp [] (Some (RankedTensorType [8, 8, 8] F32))),
         Some (InsertSliceOp InsertSliceKind 1 3 [Attr 0, Attr 0, Attr 0]
                 [Attr 1, Attr 1, Attr 4] [Attr 1, Attr 1, Attr 1]
                 (Some (RankedTensorType [8, 8, 8] F32)))] 4)) = success"
    by (simp add: FoldPaddingExpandIntoInsert_def getDefiningOp_def
          getType_def isRankReducedType_def modifyOpInPlace_def)
  show ?thesis
    using b by (simp add: a)
qed

end
